theory Spec2Isabelle
  imports Main
begin

section \<open>Python exceptions\<close>

text \<open>
  The exception classes that occur in the sources. \<open>KeyboardInterrupt\<close> and
  \<open>SystemExit\<close> derive from \<open>BaseException\<close> only; every other class listed
  here derives from \<open>Exception\<close>. \<open>AbortedException\<close> is the SDK's
  \<open>ids_peak.AbortedException\<close>; \<open>OtherException\<close> stands for any further class
  below \<open>Exception\<close>, with its message.
\<close>

datatype py_exception =
    KeyboardInterrupt
  | SystemExit string
  | AbortedException
  | IndexError
  | NameError
  | CalledProcessError
  | OtherException string

text \<open>\<open>isinstance(e, Exception)\<close>: what an \<open>except Exception\<close> clause catches.\<close>

fun is_Exception :: "py_exception \<Rightarrow> bool" where
  "is_Exception KeyboardInterrupt = False"
| "is_Exception (SystemExit msg) = False"
| "is_Exception AbortedException = True"
| "is_Exception IndexError = True"
| "is_Exception NameError = True"
| "is_Exception CalledProcessError = True"
| "is_Exception (OtherException msg) = True"

fun str_exception :: "py_exception \<Rightarrow> string" where
  "str_exception KeyboardInterrupt = []"
| "str_exception (SystemExit msg) = msg"
| "str_exception AbortedException = ''Aborted''"
| "str_exception IndexError = ''list index out of range''"
| "str_exception NameError = ''name is not defined''"
| "str_exception CalledProcessError = ''non-zero exit status''"
| "str_exception (OtherException msg) = msg"

definition str_bool :: "bool \<Rightarrow> string" where
  "str_bool b = (if b then ''True'' else ''False'')"

section \<open>ids/record_frames.py: the camera and its data stream\<close>

text \<open>
  A buffer announced to the transport layer: its identity and its size in bytes.
\<close>

record buffer =
  buf_id :: nat
  buf_size :: nat

text \<open>The calls into the SDK that the class makes on the data stream and the node map.\<close>

datatype sdk_event =
    EvStartAcquisition
  | EvStopAcquisition
  | EvFlush
  | EvRevokeBuffer buffer
  | EvAllocAndAnnounceBuffer buffer
  | EvQueueBuffer buffer
  | EvExecute string
  | EvWaitUntilDone string
  | EvSetValue string int
  | EvSetCurrentEntry string string

datatype callback_kind = CbFound | CbLost | CbReconnected | CbDisconnected

text \<open>
  The state of an \<open>IDSCam\<close> object together with the SDK objects it owns: the remote
  node map (\<open>PayloadSize\<close>, \<open>TLParamsLocked\<close>, whether \<open>AcquisitionStart\<close> has
  been executed), the data stream (announced buffers in order, queued buffers, grabbing
  flag, minimum number of buffers), the device manager's registered callbacks, the
  library, and what was printed. \<open>trace\<close> records every SDK call on the stream or on
  a command node, paired with the value of \<open>IsGrabbing()\<close> at the moment of the call.
\<close>

record cam =
  payload_size :: nat
  num_buffers_announced_min_required :: nat
  announced_buffers :: "buffer list"
  queued_buffers :: "buffer list"
  is_grabbing :: bool
  next_buffer_id :: nat
  remote_acquisition_started :: bool
  tl_params_locked :: int
  acquisition_running :: bool
  device :: "nat option"
  reconnect_enable :: bool
  registered_callbacks :: "callback_kind list"
  library_open :: bool
  printed :: "string list"
  trace :: "(sdk_event \<times> bool) list"

definition print :: "string \<Rightarrow> cam \<Rightarrow> cam" where
  "print line s = s\<lparr>printed := printed s @ [line]\<rparr>"

definition record_event :: "sdk_event \<Rightarrow> cam \<Rightarrow> cam" where
  "record_event ev s = s\<lparr>trace := trace s @ [(ev, is_grabbing s)]\<rparr>"

subsection \<open>SDK operations\<close>

definition StartAcquisition :: "cam \<Rightarrow> cam" where
  "StartAcquisition s = (record_event EvStartAcquisition s)\<lparr>is_grabbing := True\<rparr>"

definition StopAcquisition :: "cam \<Rightarrow> cam" where
  "StopAcquisition s = (record_event EvStopAcquisition s)\<lparr>is_grabbing := False\<rparr>"

text \<open>\<open>Flush(DataStreamFlushMode_DiscardAll)\<close>: no buffer stays in a queue.\<close>

definition Flush_DiscardAll :: "cam \<Rightarrow> cam" where
  "Flush_DiscardAll s = (record_event EvFlush s)\<lparr>queued_buffers := []\<rparr>"

definition RevokeBuffer :: "buffer \<Rightarrow> cam \<Rightarrow> cam" where
  "RevokeBuffer b s =
     (record_event (EvRevokeBuffer b) s)\<lparr>announced_buffers := remove1 b (announced_buffers s)\<rparr>"

definition AllocAndAnnounceBuffer :: "nat \<Rightarrow> cam \<Rightarrow> buffer \<times> cam" where
  "AllocAndAnnounceBuffer sz s =
     (let b = \<lparr>buf_id = next_buffer_id s, buf_size = sz\<rparr>
      in (b, (record_event (EvAllocAndAnnounceBuffer b) s)
               \<lparr>announced_buffers := announced_buffers s @ [b],
                next_buffer_id := Suc (next_buffer_id s)\<rparr>))"

definition QueueBuffer :: "buffer \<Rightarrow> cam \<Rightarrow> cam" where
  "QueueBuffer b s =
     (record_event (EvQueueBuffer b) s)\<lparr>queued_buffers := queued_buffers s @ [b]\<rparr>"

text \<open>\<open>FindNode(name).Execute()\<close> on the remote node map.\<close>

definition Execute :: "string \<Rightarrow> cam \<Rightarrow> cam" where
  "Execute name s =
     (let s1 = record_event (EvExecute name) s
      in if name = ''AcquisitionStart'' then s1\<lparr>remote_acquisition_started := True\<rparr>
         else if name = ''AcquisitionStop'' then s1\<lparr>remote_acquisition_started := False\<rparr>
         else s1)"

definition WaitUntilDone :: "string \<Rightarrow> cam \<Rightarrow> cam" where
  "WaitUntilDone name s = record_event (EvWaitUntilDone name) s"

definition SetValue :: "string \<Rightarrow> int \<Rightarrow> cam \<Rightarrow> cam" where
  "SetValue name v s =
     (let s1 = record_event (EvSetValue name v) s
      in if name = ''TLParamsLocked'' then s1\<lparr>tl_params_locked := v\<rparr> else s1)"

subsection \<open>Buffer allocation and revocation\<close>

text \<open>
  \<open>alloc_buffers\<close>: read \<open>PayloadSize\<close> once, then allocate, announce and queue
  \<open>NumBuffersAnnouncedMinRequired()\<close> buffers of that size.
\<close>

fun alloc_loop :: "nat \<Rightarrow> nat \<Rightarrow> cam \<Rightarrow> cam" where
  "alloc_loop 0 sz s = s"
| "alloc_loop (Suc n) sz s =
     (let (b, s1) = AllocAndAnnounceBuffer sz s
      in alloc_loop n sz (QueueBuffer b s1))"

definition alloc_buffers :: "cam \<Rightarrow> cam" where
  "alloc_buffers s =
     (let sz = payload_size s;
          buffer_count_max = num_buffers_announced_min_required s
      in alloc_loop buffer_count_max sz s)"

text \<open>
  \<open>revoke_buffers\<close>: flush, then revoke every buffer of the list that
  \<open>AnnouncedBuffers()\<close> returned before the first revocation.
\<close>

definition revoke_buffers :: "cam \<Rightarrow> cam" where
  "revoke_buffers s =
     (let s1 = Flush_DiscardAll s
      in fold RevokeBuffer (announced_buffers s1) s1)"

subsection \<open>Reconnect handling\<close>

record reconnect_information =
  IsSuccessful :: bool
  IsRemoteDeviceAcquisitionRunning :: bool
  IsRemoteDeviceConfigurationRestored :: bool

text \<open>
  \<open>AnnouncedBuffers()[0]\<close> raises \<open>IndexError\<close> on an empty pool; the comparison
  of its size with \<open>PayloadSize\<close> comes before anything else.
\<close>

definition ensure_compatible_buffers_and_restart_acquisition ::
    "reconnect_information \<Rightarrow> cam \<Rightarrow> py_exception + cam" where
  "ensure_compatible_buffers_and_restart_acquisition info s =
     (let payload = payload_size s
      in case announced_buffers s of
           [] \<Rightarrow> Inl IndexError
         | b0 # rest \<Rightarrow>
             (let has_payload_size_mismatch = (payload \<noteq> buf_size b0);
                  s5 = (if has_payload_size_mismatch then
                          (let s0 = print ''PayloadSize has changed. Reallocating buffers...'' s;
                               is_data_stream_running = is_grabbing s0;
                               s1 = (if is_data_stream_running then StopAcquisition s0 else s0);
                               s2 = revoke_buffers s1;
                               s3 = alloc_buffers s2;
                               s4 = (if is_data_stream_running then StartAcquisition s3 else s3)
                           in s4)
                        else s)
              in Inr (if \<not> IsRemoteDeviceAcquisitionRunning info
                      then Execute ''AcquisitionStart'' s5 else s5)))"

definition device_reconnected ::
    "string \<Rightarrow> reconnect_information \<Rightarrow> cam \<Rightarrow> py_exception + cam" where
  "device_reconnected key info s =
     (let s1 = print (''Device-Reconnected-Callback:'' @ [CHR 0x0A]
                      @ ''Key='' @ key @ [CHR 0x0A]
                      @ ''ReconnectSuccessful: '' @ str_bool (IsSuccessful info) @ [CHR 0x0A]
                      @ ''RemoteDeviceAcquisitionRunning: ''
                      @ str_bool (IsRemoteDeviceAcquisitionRunning info) @ [CHR 0x0A]
                      @ ''RemoteDeviceConfigurationRestored: ''
                      @ str_bool (IsRemoteDeviceConfigurationRestored info)) s
      in if IsSuccessful info then Inr s1
         else ensure_compatible_buffers_and_restart_acquisition info s1)"

subsection \<open>The acquisition loop\<close>

text \<open>
  What one pass through the \<open>try\<close> block of the loop meets:
  \<open>WaitForFinishedBuffer(INFINITE_TIMEOUT)\<close> hands back a filled buffer (with the
  text of its frame id), or an exception is raised while waiting.
\<close>

datatype wait_outcome = Finished buffer string | WaitRaises py_exception

text \<open>
  How the \<open>while\<close> loop ends: its condition became false, the \<open>break\<close> of the
  \<open>KeyboardInterrupt\<close> handler, an exception that no handler of the loop caught, or
  never: the wait has no timeout, so with no further event the call does not return.
\<close>

datatype loop_end = ConditionFalse | Break | Propagates py_exception | WaitsForever

fun acquisition_iterations :: "wait_outcome list \<Rightarrow> cam \<Rightarrow> loop_end \<times> cam" where
  "acquisition_iterations [] s =
     (if acquisition_running s then (WaitsForever, s) else (ConditionFalse, s))"
| "acquisition_iterations (Finished b frame_id # evs) s =
     (if acquisition_running s then
        acquisition_iterations evs
          (QueueBuffer b
            (print (''Received FrameID: '' @ frame_id)
              (s\<lparr>queued_buffers := remove1 b (queued_buffers s)\<rparr>)))
      else (ConditionFalse, s))"
| "acquisition_iterations (WaitRaises e # evs) s =
     (if acquisition_running s then
        (if e = KeyboardInterrupt then (Break, print ''Keyboard interrupt.'' s)
         else if is_Exception e then
           acquisition_iterations evs (print (''Exception: '' @ str_exception e) s)
         else (Propagates e, s))
      else (ConditionFalse, s))"

text \<open>
  The result of a call: it returned a value, it raised, or it never returns.
\<close>

datatype 'a outcome = Returned 'a | Raised py_exception | Blocked

definition run_acquisition_loop :: "wait_outcome list \<Rightarrow> cam \<Rightarrow> unit outcome \<times> cam" where
  "run_acquisition_loop evs s =
     (let s1 = SetValue ''TLParamsLocked'' 1 s;
          s2 = StartAcquisition s1;
          s3 = Execute ''AcquisitionStart'' s2;
          s4 = WaitUntilDone ''AcquisitionStart'' s3;
          s5 = s4\<lparr>acquisition_running := True\<rparr>;
          s6 = print ''Starting acquisition...'' s5;
          s7 = print ''Now you can disconnect or reboot the device to trigger a reconnect!'' s6
      in case acquisition_iterations evs s7 of
           (WaitsForever, s8) \<Rightarrow> (Blocked, s8)
         | (Propagates e, s8) \<Rightarrow> (Raised e, s8)
         | (other, s8) \<Rightarrow>
             (let s9 = print ''Stopping acquisition...'' s8;
                  s10 = Execute ''AcquisitionStop'' s9;
                  s11 = WaitUntilDone ''AcquisitionStop'' s10;
                  s12 = StopAcquisition s11;
                  s13 = SetValue ''TLParamsLocked'' 0 s12
              in (Returned (), s13)))"

subsection \<open>Callbacks, device, reconnect\<close>

definition register_callbacks :: "cam \<Rightarrow> cam" where
  "register_callbacks s =
     s\<lparr>registered_callbacks :=
          registered_callbacks s @ [CbFound, CbLost, CbReconnected, CbDisconnected]\<rparr>"

definition UnregisterCallback :: "callback_kind \<Rightarrow> cam \<Rightarrow> cam" where
  "UnregisterCallback k s = s\<lparr>registered_callbacks := remove1 k (registered_callbacks s)\<rparr>"

definition unregister_callbacks :: "cam \<Rightarrow> cam" where
  "unregister_callbacks s =
     UnregisterCallback CbDisconnected
       (UnregisterCallback CbReconnected
         (UnregisterCallback CbLost
           (UnregisterCallback CbFound s)))"

definition Library_Close :: "cam \<Rightarrow> cam" where
  "Library_Close s = s\<lparr>library_open := False\<rparr>"

text \<open>
  \<open>__init__\<close>: initialise the library and register the callbacks. The payload size and
  the minimum number of buffers are the device's; they are fixed here for the whole run.
\<close>

definition IDSCam_init :: "nat \<Rightarrow> nat \<Rightarrow> cam" where
  "IDSCam_init payload min_required =
     register_callbacks
       \<lparr>payload_size = payload, num_buffers_announced_min_required = min_required,
        announced_buffers = [], queued_buffers = [], is_grabbing = False,
        next_buffer_id = 0, remote_acquisition_started = False, tl_params_locked = 0,
        acquisition_running = False, device = None, reconnect_enable = False,
        registered_callbacks = [], library_open = True, printed = [], trace = []\<rparr>"

datatype node_access = ReadWrite | ReadOnly | NotAvailable

datatype run_step =
    StepUpdate | StepOpenDevice | StepEnableReconnect | StepLoadDefaults
  | StepSetExposure | StepAllocBuffers | StepRunAcquisitionLoop | StepRevokeBuffers

text \<open>
  What the camera object meets outside itself during \<open>run\<close>: for each device of
  \<open>Devices()\<close> its display name and whether it is openable; the \<open>ReconnectEnable\<close> node of the system
  (present, access status, value); the outcomes of the successive buffer waits; and, for
  each statement of the \<open>try\<close> block, the exception that the SDK (or a signal) raises
  inside it, if any.
\<close>

record world =
  devices :: "(string \<times> bool) list"
  has_reconnect_enable :: bool
  reconnect_enable_access :: node_access
  reconnect_enable_value :: bool
  wait_outcomes :: "wait_outcome list"
  sdk_fault :: "run_step \<Rightarrow> py_exception option"

text \<open>The loop of \<open>open_device\<close> opens every openable device and keeps the last one.\<close>

fun open_loop :: "(string \<times> bool) list \<Rightarrow> nat \<Rightarrow> (nat \<times> string) option
    \<Rightarrow> (nat \<times> string) option" where
  "open_loop [] i d = d"
| "open_loop ((name, openable) # rest) i d =
     open_loop rest (Suc i) (if openable then Some (i, name) else d)"

definition open_device :: "world \<Rightarrow> cam \<Rightarrow> unit outcome \<times> cam" where
  "open_device w s =
     (case open_loop (devices w) 0 None of
        None \<Rightarrow> (Raised (OtherException ''No device found. Exiting Program.''), s)
      | Some (d, name) \<Rightarrow>
          (Returned (), print (''Using Device '' @ name) (s\<lparr>device := Some d\<rparr>)))"

definition enable_reconnect :: "world \<Rightarrow> cam \<Rightarrow> unit outcome \<times> cam" where
  "enable_reconnect w s =
     (if \<not> has_reconnect_enable w then
        (Raised (SystemExit ''No ReconnectEnable Node found!''), s)
      else if reconnect_enable_access w = ReadWrite then
        (Returned (), s\<lparr>reconnect_enable := True\<rparr>)
      else if reconnect_enable_access w = ReadOnly \<and> reconnect_enable_value w then
        (Returned (), s\<lparr>reconnect_enable := True\<rparr>)
      else (Raised (SystemExit ''Error: ReconnectEnable cannot be set to true!''), s))"

definition SetCurrentEntry :: "string \<Rightarrow> string \<Rightarrow> cam \<Rightarrow> cam" where
  "SetCurrentEntry name entry s = record_event (EvSetCurrentEntry name entry) s"

definition load_defaults :: "cam \<Rightarrow> cam" where
  "load_defaults s =
     WaitUntilDone ''UserSetLoad''
       (Execute ''UserSetLoad''
         (SetCurrentEntry ''UserSetSelector'' ''Default'' s))"

subsection \<open>The main routine\<close>

text \<open>
  One statement of the \<open>try\<close> block: if the SDK raises inside it, the exception leaves
  the statement; otherwise the statement runs.
\<close>

definition statement ::
    "world \<Rightarrow> run_step \<Rightarrow> (cam \<Rightarrow> unit outcome \<times> cam) \<Rightarrow> cam \<Rightarrow> unit outcome \<times> cam" where
  "statement w step f s = (case sdk_fault w step of Some e \<Rightarrow> (Raised e, s) | None \<Rightarrow> f s)"

text \<open>Sequencing: the second statement runs only if the first one returned.\<close>

definition and_then ::
    "(cam \<Rightarrow> unit outcome \<times> cam) \<Rightarrow> (cam \<Rightarrow> unit outcome \<times> cam) \<Rightarrow> cam \<Rightarrow> unit outcome \<times> cam" where
  "and_then f g s = (case f s of (Returned u, s1) \<Rightarrow> g s1 | (r, s1) \<Rightarrow> (r, s1))"

definition run_body :: "world \<Rightarrow> cam \<Rightarrow> unit outcome \<times> cam" where
  "run_body w =
     and_then (statement w StepUpdate (\<lambda>s. (Returned (), s)))
    (and_then (statement w StepOpenDevice (open_device w))
    (and_then (statement w StepEnableReconnect (enable_reconnect w))
    (and_then (statement w StepLoadDefaults (\<lambda>s. (Returned (), load_defaults s)))
    (and_then (statement w StepSetExposure (\<lambda>s. (Returned (), SetValue ''ExposureTime'' 50 s)))
    (and_then (statement w StepAllocBuffers (\<lambda>s. (Returned (), alloc_buffers s)))
    (and_then (statement w StepRunAcquisitionLoop (run_acquisition_loop (wait_outcomes w)))
              (statement w StepRevokeBuffers (\<lambda>s. (Returned (), revoke_buffers s)))))))))"

text \<open>The \<open>finally\<close> block, run before the result of \<open>run\<close> is passed on.\<close>

definition finally_block :: "int option outcome \<Rightarrow> cam \<Rightarrow> int option outcome \<times> cam" where
  "finally_block r s = (r, Library_Close (unregister_callbacks s))"

text \<open>
  \<open>run\<close>: the value returned is \<open>None\<close> or \<open>-2\<close>. An exception that neither
  \<open>except\<close> clause catches leaves \<open>run\<close> after the \<open>finally\<close> block.
\<close>

definition run :: "world \<Rightarrow> cam \<Rightarrow> int option outcome \<times> cam" where
  "run w s =
     (case run_body w s of
        (Blocked, s1) \<Rightarrow> (Blocked, s1)
      | (Returned u, s1) \<Rightarrow> finally_block (Returned None) s1
      | (Raised e, s1) \<Rightarrow>
          (if e = AbortedException then finally_block (Returned None) (print ''Aborted'' s1)
           else if is_Exception e then
             finally_block (Returned (Some (- 2))) (print (''EXCEPTION: '' @ str_exception e) s1)
           else finally_block (Raised e) s1))"



subsection \<open>Auxiliary notions and sample states\<close>

text \<open>The SDK calls that change the buffer pool or its queues.\<close>

definition is_pool_mutation :: "sdk_event \<Rightarrow> bool" where
  "is_pool_mutation ev =
     (case ev of EvFlush \<Rightarrow> True | EvRevokeBuffer b \<Rightarrow> True
      | EvAllocAndAnnounceBuffer b \<Rightarrow> True | EvQueueBuffer b \<Rightarrow> True | _ \<Rightarrow> False)"

text \<open>
  A camera in the middle of an acquisition whose device came back with a payload size
  of 2048 bytes while two buffers of 1024 bytes are announced.
\<close>

definition example_cam :: cam where
  "example_cam =
     \<lparr>payload_size = 2048, num_buffers_announced_min_required = 3,
      announced_buffers = [\<lparr>buf_id = 0, buf_size = 1024\<rparr>, \<lparr>buf_id = 1, buf_size = 1024\<rparr>],
      queued_buffers = [\<lparr>buf_id = 0, buf_size = 1024\<rparr>],
      is_grabbing = True, next_buffer_id = 2, remote_acquisition_started = False,
      tl_params_locked = 1, acquisition_running = True,
      device = Some 0, reconnect_enable = True,
      registered_callbacks = [CbFound, CbLost, CbReconnected, CbDisconnected],
      library_open = True, printed = [], trace = []\<rparr>"

definition failed_reconnect :: reconnect_information where
  "failed_reconnect = \<lparr>IsSuccessful = False, IsRemoteDeviceAcquisitionRunning = False,
     IsRemoteDeviceConfigurationRestored = False\<rparr>"

definition successful_reconnect :: reconnect_information where
  "successful_reconnect = \<lparr>IsSuccessful = True, IsRemoteDeviceAcquisitionRunning = True,
     IsRemoteDeviceConfigurationRestored = True\<rparr>"

text \<open>The part of the state that the cleanup of \<open>run\<close> is about.\<close>

definition registry :: "cam \<Rightarrow> callback_kind list \<times> bool" where
  "registry s = (registered_callbacks s, library_open s)"

text \<open>A wait outcome that ends the loop: an exception that \<open>except Exception\<close> does not catch.\<close>

fun ends_loop :: "wait_outcome \<Rightarrow> bool" where
  "ends_loop (Finished b frame_id) = False"
| "ends_loop (WaitRaises e) = (\<not> is_Exception e)"

text \<open>
  The exceptions that a wait for a finished buffer can raise: the SDK's errors, all of
  classes below \<open>Exception\<close>, and \<open>KeyboardInterrupt\<close> on Ctrl+C. (\<open>SystemExit\<close>
  is raised by \<open>enable_reconnect\<close> only, before the loop starts, and the class installs
  no signal handler.)
\<close>

definition wait_can_raise :: "py_exception \<Rightarrow> bool" where
  "wait_can_raise e = (e = KeyboardInterrupt \<or> is_Exception e)"

fun receivable :: "wait_outcome \<Rightarrow> bool" where
  "receivable (Finished b frame_id) = True"
| "receivable (WaitRaises e) = wait_can_raise e"

text \<open>
  Sample surroundings for \<open>run\<close>: one openable device whose \<open>ReconnectEnable\<close> node
  is writable, one frame delivered and then Ctrl+C; and variations of it.
\<close>

definition normal_world :: world where
  "normal_world =
     \<lparr>devices = [(''U3-3680XCP-M'', True)], has_reconnect_enable = True, reconnect_enable_access = ReadWrite,
      reconnect_enable_value = False,
      wait_outcomes = [Finished \<lparr>buf_id = 0, buf_size = 2048\<rparr> ''1'', WaitRaises KeyboardInterrupt],
      sdk_fault = (\<lambda>step. None)\<rparr>"

definition aborted_world :: world where
  "aborted_world =
     normal_world\<lparr>sdk_fault := (\<lambda>step. if step = StepRunAcquisitionLoop
                                         then Some AbortedException else None)\<rparr>"

definition no_device_world :: world where
  "no_device_world = normal_world\<lparr>devices := [(''U3-3680XCP-M'', False)]\<rparr>"

definition interrupted_world :: world where
  "interrupted_world =
     normal_world\<lparr>sdk_fault := (\<lambda>step. if step = StepAllocBuffers
                                        then Some KeyboardInterrupt else None)\<rparr>"

section \<open>main.py: the capture orchestrator\<close>

text \<open>
  What \<open>subprocess.run(command, capture_output=True, text=True)\<close> gives back: a
  \<open>CompletedProcess\<close> with the child's exit code and captured streams (no
  \<open>check=True\<close> is passed, so a nonzero exit code is a value, not an exception), or an
  exception raised by the call itself.
\<close>

record completed_process =
  returncode :: int
  stdout :: string
  stderr :: string

datatype subprocess_result = Completed completed_process | RunRaises py_exception

text \<open>
  The surroundings of the orchestrator: the result of the \<open>k\<close>-th call of
  \<open>subprocess.run\<close> on a command, and the exception that the in-process hyperspectral
  capture \<open>record_hsi\<close> raises, if any.
\<close>

record environment =
  subprocess_run :: "nat \<Rightarrow> string list \<Rightarrow> subprocess_result"
  record_hsi_raises :: "py_exception option"

text \<open>
  What the orchestrator has done so far: the commands passed to \<open>subprocess.run\<close>, in
  order, and the lines printed.
\<close>

record orchestrator =
  subprocess_calls :: "string list list"
  stdout_lines :: "string list"

definition say :: "string \<Rightarrow> orchestrator \<Rightarrow> orchestrator" where
  "say line s = s\<lparr>stdout_lines := stdout_lines s @ [line]\<rparr>"

definition call_subprocess ::
    "environment \<Rightarrow> string list \<Rightarrow> orchestrator \<Rightarrow> subprocess_result \<times> orchestrator" where
  "call_subprocess env command s =
     (subprocess_run env (length (subprocess_calls s)) command,
      s\<lparr>subprocess_calls := subprocess_calls s @ [command]\<rparr>)"

subsection \<open>Paths and commands\<close>

definition capture_path :: string where
  "capture_path = ''captured_data/black_white_lines''"

definition output_svo_file :: string where
  "output_svo_file = capture_path @ ''/recording.svo2''"

definition output_pose_file :: string where
  "output_pose_file = capture_path @ ''/pose.csv''"

definition output_path_dir :: string where
  "output_path_dir = capture_path @ ''/png_dir''"

definition output_mesh_file :: string where
  "output_mesh_file = capture_path @ ''/mesh_file.obj''"

definition func_path_record :: string where
  "func_path_record = ''/home/ubuntu/VSCodeProjects/uw-openhsi/uw-openhsi/zed/record_svo.py''"

definition func_path_pose_post :: string where
  "func_path_pose_post = ''/home/ubuntu/VSCodeProjects/uw-openhsi/uw-openhsi/zed/position_post.py''"

definition func_path_export :: string where
  "func_path_export =
     ''/home/ubuntu/VSCodeProjects/uw-openhsi/uw-openhsi/zed/export_svo_images_or_vid.py''"

definition func_mesh_post :: string where
  "func_mesh_post = ''/home/ubuntu/VSCodeProjects/uw-openhsi/uw-openhsi/zed/mesh_post.py''"

text \<open>
  \<open>str(fps_stereo)\<close> is \<open>5\<close>; \<open>str(time_stop_zed)\<close> depends on the clock at start
  and is a parameter.
\<close>

definition command_record :: "string \<Rightarrow> string list" where
  "command_record time_stop_zed =
     [''python'', func_path_record, ''--output_svo_file'', output_svo_file,
      ''--fps'', ''5'', ''--time_stop_zed'', time_stop_zed]"

definition command_export :: "string list" where
  "command_export =
     [''python'', func_path_export, ''--input_svo_file'', output_svo_file,
      ''--output_path_dir'', output_path_dir]"

definition command_pose_post :: "string list" where
  "command_pose_post =
     [''python'', func_path_pose_post, ''--input_svo_file'', output_svo_file,
      ''--output_pose_file'', output_pose_file]"

definition command_mesh_post :: "string list" where
  "command_mesh_post =
     [''python'', func_mesh_post, ''--input_svo_file'', output_svo_file,
      ''--output_mesh_file'', output_mesh_file]"

subsection \<open>The step table\<close>

record process_dict =
  pd_record :: bool
  pd_record_svo :: bool
  pd_record_hsi :: bool
  pd_pose_post :: bool
  pd_export :: bool
  pd_mesh_post :: bool

text \<open>The table as the script sets it.\<close>

definition process_dict_of_script :: process_dict where
  "process_dict_of_script =
     \<lparr>pd_record = True, pd_record_svo = False, pd_record_hsi = True,
      pd_pose_post = False, pd_export = False, pd_mesh_post = False\<rparr>"

subsection \<open>The steps\<close>

text \<open>
  \<open>record_svo\<close>. A \<open>KeyboardInterrupt\<close> during the call is caught by the inner
  \<open>try\<close>; \<open>result\<close> is then unbound and reading it raises \<open>NameError\<close>, which the
  outer \<open>except\<close> catches together with \<open>CalledProcessError\<close>. Any other exception
  leaves the function.
\<close>

definition record_svo ::
    "environment \<Rightarrow> string \<Rightarrow> string list \<Rightarrow> orchestrator \<Rightarrow> py_exception option \<times> orchestrator" where
  "record_svo env svo_file command s =
     (let s0 = say (''######################### RECORDING SVO FILE '' @ svo_file
                    @ '' #########################'') s;
          (res, s1) = call_subprocess env command s0
      in case res of
           Completed result \<Rightarrow>
             (if returncode result = 0
              then (None, say (stdout result) (say ''Recording execution successful!'' s1))
              else (None, say (stderr result) (say ''Recording execution failed.'' s1)))
         | RunRaises e \<Rightarrow>
             (if e = KeyboardInterrupt then
                (None, say (''Error occurred while calling record_svo.py: '' @ str_exception NameError)
                         (say ''Timeout reached. Stopping the command.'' s1))
              else if e = CalledProcessError \<or> e = NameError then
                (None, say (''Error occurred while calling record_svo.py: '' @ str_exception e) s1)
              else (Some e, s1)))"

text \<open>
  The block shared by the \<open>export\<close>, \<open>pose_post\<close> and \<open>mesh_post\<close> steps, with
  the two messages of the step.
\<close>

definition run_step_block ::
    "environment \<Rightarrow> string list \<Rightarrow> string \<Rightarrow> string \<Rightarrow> orchestrator
      \<Rightarrow> py_exception option \<times> orchestrator" where
  "run_step_block env command msg_ok msg_failed s =
     (let (res, s1) = call_subprocess env command s
      in case res of
           Completed result \<Rightarrow>
             (if returncode result = 0
              then (None, say (stdout result) (say msg_ok s1))
              else (None, say (stderr result) (say msg_failed s1)))
         | RunRaises e \<Rightarrow>
             (if e = CalledProcessError then
                (None, say (''Error occurred while calling position_post.py '' @ str_exception e) s1)
              else (Some e, s1)))"

text \<open>A step that runs only if its entry of the table is set.\<close>

definition if_enabled ::
    "bool \<Rightarrow> (orchestrator \<Rightarrow> py_exception option \<times> orchestrator) \<Rightarrow> orchestrator
      \<Rightarrow> py_exception option \<times> orchestrator" where
  "if_enabled enabled f s = (if enabled then f s else (None, s))"

text \<open>Sequencing: an exception that left a step ends the script.\<close>

definition next_step ::
    "(orchestrator \<Rightarrow> py_exception option \<times> orchestrator)
      \<Rightarrow> (orchestrator \<Rightarrow> py_exception option \<times> orchestrator)
      \<Rightarrow> orchestrator \<Rightarrow> py_exception option \<times> orchestrator" where
  "next_step f g s = (case f s of (None, s1) \<Rightarrow> g s1 | (Some e, s1) \<Rightarrow> (Some e, s1))"

text \<open>
  \<open>record_hsi\<close> runs in the script's own process: what it raises leaves the script.
  \<open>record_svo\<close> runs in a child \<open>Process\<close> that is started and joined: what it raises
  ends the child only.
\<close>

definition record_hsi_step :: "environment \<Rightarrow> orchestrator \<Rightarrow> py_exception option \<times> orchestrator" where
  "record_hsi_step env s = (record_hsi_raises env, s)"

definition record_svo_step ::
    "environment \<Rightarrow> string \<Rightarrow> orchestrator \<Rightarrow> py_exception option \<times> orchestrator" where
  "record_svo_step env time_stop_zed s =
     (let (raised_in_child, s1) = record_svo env output_svo_file (command_record time_stop_zed) s
      in (None, s1))"

text \<open>The steps of the script, from \<open>if process_dict["record"]\<close> to its end.\<close>

definition main_steps ::
    "process_dict \<Rightarrow> environment \<Rightarrow> string \<Rightarrow> orchestrator \<Rightarrow> py_exception option \<times> orchestrator" where
  "main_steps pd env time_stop_zed =
     next_step (if_enabled (pd_record pd)
                 (next_step (if_enabled (pd_record_hsi pd) (record_hsi_step env))
                            (if_enabled (pd_record_svo pd) (record_svo_step env time_stop_zed))))
    (next_step (if_enabled (pd_export pd)
                 (run_step_block env command_export
                    ''Pose estimation execution successful!''
                    ''Pose estimateion execution failed.''))
    (next_step (if_enabled (pd_pose_post pd)
                 (\<lambda>s. run_step_block env command_pose_post
                    ''Pose estimation execution successful!''
                    ''Pose estimateion execution failed.''
                    (say (''######################### Pose estimation from SVO FILE ''
                          @ output_svo_file @ '' #########################'') s)))
    (next_step (if_enabled (pd_mesh_post pd)
                 (run_step_block env command_mesh_post
                    ''Mesh estimation execution successful!''
                    ''Mesh estimation execution failed.''))
               (if_enabled (pd_mesh_post pd)
                 (run_step_block env command_mesh_post
                    ''Mesh estimation execution successful!''
                    ''Mesh estimation execution failed.'')))))"

definition start_state :: orchestrator where
  "start_state = \<lparr>subprocess_calls = [], stdout_lines = []\<rparr>"

text \<open>The commands of the steps that the table enables, in the order of the script.\<close>

definition configured_commands :: "process_dict \<Rightarrow> string \<Rightarrow> string list list" where
  "configured_commands pd time_stop_zed =
     (if pd_record pd \<and> pd_record_svo pd then [command_record time_stop_zed] else [])
     @ (if pd_export pd then [command_export] else [])
     @ (if pd_pose_post pd then [command_pose_post] else [])
     @ (if pd_mesh_post pd then [command_mesh_post, command_mesh_post] else [])"

text \<open>Every child that exited with a nonzero code so far has had its stderr printed.\<close>

definition failures_logged :: "environment \<Rightarrow> orchestrator \<Rightarrow> bool" where
  "failures_logged env s =
     (\<forall>k < length (subprocess_calls s).
        case subprocess_run env k (subprocess_calls s ! k) of
          Completed result \<Rightarrow> returncode result \<noteq> 0 \<longrightarrow> stderr result \<in> set (stdout_lines s)
        | RunRaises e \<Rightarrow> True)"

text \<open>A sample: every step enabled, every child exiting with code 1.\<close>

definition all_steps :: process_dict where
  "all_steps =
     \<lparr>pd_record = True, pd_record_svo = True, pd_record_hsi = True,
      pd_pose_post = True, pd_export = True, pd_mesh_post = True\<rparr>"

definition failing_environment :: environment where
  "failing_environment =
     \<lparr>subprocess_run = (\<lambda>k command. Completed \<lparr>returncode = 1, stdout = [], stderr = ''failed''\<rparr>),
      record_hsi_raises = None\<rparr>"

section \<open>zed/position_post.py: poses of a recorded SVO file\<close>

text \<open>
  A pose as the stereo SDK reports it after a successful grab: the timestamp in
  milliseconds, the translation and the orientation quaternion. The components are the
  SDK's floating-point numbers; their type is left open.
\<close>

record 'f pose =
  timestamp_ms :: int
  tx :: 'f
  ty :: 'f
  tz :: 'f
  qx :: 'f
  qy :: 'f
  qz :: 'f
  qw :: 'f

datatype 'f cell = IntCell int | FloatCell 'f | NaNCell

text \<open>
  A pandas \<open>DataFrame\<close> whose index is \<open>0, 1, 2, ...\<close> (the frames are always
  concatenated with \<open>ignore_index=True\<close>): its column labels and its rows.
\<close>

record 'f data_frame =
  df_columns :: "string list"
  df_rows :: "'f cell list list"

definition pose_columns :: "string list" where
  "pose_columns = [''Timestamp'', ''Tx'', ''Ty'', ''Tz'', ''Qx'', ''Qy'', ''Qz'', ''Qw'']"

definition empty_frame :: "'f data_frame" where
  "empty_frame = \<lparr>df_columns = pose_columns, df_rows = []\<rparr>"

text \<open>
  The \<open>Series\<close> built for one grabbed frame. \<open>round3\<close> stands for Python's
  \<open>round(x, 3)\<close> on the SDK's numbers. A \<open>Series\<close> made of one integer and seven
  floats has dtype \<open>float64\<close>: the timestamp is stored as the float of the integer,
  \<open>to_float\<close>.
\<close>

definition new_data ::
    "(int \<Rightarrow> 'f) \<Rightarrow> ('f \<Rightarrow> 'f) \<Rightarrow> 'f pose \<Rightarrow> (string \<times> 'f cell) list" where
  "new_data to_float round3 p =
     [(''Timestamp'', FloatCell (to_float (timestamp_ms p))),
      (''Tx'', FloatCell (round3 (tx p))),
      (''Ty'', FloatCell (round3 (ty p))),
      (''Tz'', FloatCell (round3 (tz p))),
      (''Qx'', FloatCell (round3 (qx p))),
      (''Qy'', FloatCell (round3 (qy p))),
      (''Qz'', FloatCell (round3 (qz p))),
      (''Qw'', FloatCell (round3 (qw p)))]"

text \<open>
  \<open>pd.concat([df, series.to_frame().T], ignore_index=True)\<close> for a series whose labels
  are among the columns of \<open>df\<close>: one more row, its values placed by column label.
\<close>

definition concat_row :: "'f data_frame \<Rightarrow> (string \<times> 'f cell) list \<Rightarrow> 'f data_frame" where
  "concat_row df series =
     df\<lparr>df_rows := df_rows df
          @ [map (\<lambda>c. case map_of series c of Some v \<Rightarrow> v | None \<Rightarrow> NaNCell) (df_columns df)]\<rparr>"

text \<open>
  The file that \<open>df.to_csv(path)\<close> writes, as fields: pandas' defaults are
  \<open>header=True\<close> and \<open>index=True\<close>, so the first line holds an empty field (the
  unnamed index) followed by the column labels, and every other line holds the row's
  index followed by its values.
\<close>

record 'f csv_file =
  csv_header :: "string list"
  csv_lines :: "'f cell list list"

definition to_csv :: "'f data_frame \<Rightarrow> 'f csv_file" where
  "to_csv df =
     \<lparr>csv_header = [] # df_columns df,
      csv_lines = map (\<lambda>(i, row). IntCell (int i) # row) (enumerate 0 (df_rows df))\<rparr>"

text \<open>
  What the script meets: whether \<open>zed.open\<close> and \<open>enable_positional_tracking\<close>
  succeed, the number of frames that the SVO file reports, and for the \<open>k\<close>-th call
  of \<open>zed.grab\<close> the pose of the grabbed frame if the call returned \<open>SUCCESS\<close>.
\<close>

record 'f zed =
  open_succeeds :: bool
  tracking_succeeds :: bool
  svo_number_of_frames :: int
  grab :: "nat \<Rightarrow> 'f pose option"

text \<open>
  The \<open>while i < nb_frames\<close> loop. \<open>i\<close> is incremented inside the \<open>if\<close> of the
  successful grab only, so a failed grab is followed by another grab with the same
  \<open>i\<close>. The first argument bounds the number of passes: \<open>None\<close> means that the loop
  has not ended within that many.
\<close>

fun pose_loop ::
    "nat \<Rightarrow> (int \<Rightarrow> 'f) \<Rightarrow> ('f \<Rightarrow> 'f) \<Rightarrow> (nat \<Rightarrow> 'f pose option) \<Rightarrow> int \<Rightarrow> nat \<Rightarrow> nat
      \<Rightarrow> 'f data_frame \<Rightarrow> 'f data_frame option" where
  "pose_loop 0 to_float round3 g nb_frames k i df = None"
| "pose_loop (Suc fuel) to_float round3 g nb_frames k i df =
     (if int i < nb_frames then
        (case g k of
           Some p \<Rightarrow>
             pose_loop fuel to_float round3 g nb_frames (Suc k) (Suc i)
               (concat_row df (new_data to_float round3 p))
         | None \<Rightarrow> pose_loop fuel to_float round3 g nb_frames (Suc k) i df)
      else Some df)"

text \<open>
  \<open>main\<close>: \<open>exit(1)\<close> if the camera does not open, \<open>exit()\<close> if tracking cannot
  be enabled, otherwise the loop and then the CSV.
\<close>

datatype 'f pose_result = Exited int | CsvWritten "'f csv_file"

definition position_post_main ::
    "nat \<Rightarrow> (int \<Rightarrow> 'f) \<Rightarrow> ('f \<Rightarrow> 'f) \<Rightarrow> 'f zed \<Rightarrow> 'f pose_result option" where
  "position_post_main fuel to_float round3 z =
     (if \<not> open_succeeds z then Some (Exited 1)
      else if \<not> tracking_succeeds z then Some (Exited 0)
      else case pose_loop fuel to_float round3 (grab z) (svo_number_of_frames z) 0 0 empty_frame of
             None \<Rightarrow> None
           | Some df \<Rightarrow> Some (CsvWritten (to_csv df)))"

subsection \<open>Auxiliary notions and a sample recording\<close>

text \<open>
  The row of values for one pose: the timestamp as a float and the seven rounded
  components.
\<close>

definition rounded_row :: "(int \<Rightarrow> 'f) \<Rightarrow> ('f \<Rightarrow> 'f) \<Rightarrow> 'f pose \<Rightarrow> 'f cell list" where
  "rounded_row to_float round3 p =
     [FloatCell (to_float (timestamp_ms p)), FloatCell (round3 (tx p)),
      FloatCell (round3 (ty p)), FloatCell (round3 (tz p)), FloatCell (round3 (qx p)),
      FloatCell (round3 (qy p)), FloatCell (round3 (qz p)), FloatCell (round3 (qw p))]"

text \<open>The poses of the successful grabs among the first \<open>K\<close> calls, in order.\<close>

definition grabbed :: "(nat \<Rightarrow> 'f pose option) \<Rightarrow> nat \<Rightarrow> nat \<Rightarrow> 'f pose list" where
  "grabbed g k K = List.map_filter g [k..<K]"

text \<open>
  The floats of a sample recording, each written as the Python expression that yields
  it: a literal, \<open>float(n)\<close> of an integer, or \<open>round(x, 3)\<close> of such a float. No
  arithmetic on floats is carried out.
\<close>

datatype py_float = FloatLiteral string | FloatOfInt int | Round3 py_float

text \<open>
  A recording of two frames; the second call of \<open>grab\<close> fails, the others succeed.
\<close>

definition sample_pose :: "int \<Rightarrow> py_float pose" where
  "sample_pose t =
     \<lparr>timestamp_ms = t, tx = FloatLiteral ''1.2344'', ty = FloatLiteral ''0.0'',
      tz = FloatLiteral ''-0.5006'', qx = FloatLiteral ''0.0'', qy = FloatLiteral ''0.0'',
      qz = FloatLiteral ''0.7071'', qw = FloatLiteral ''0.7071''\<rparr>"

definition sample_zed :: "py_float zed" where
  "sample_zed =
     \<lparr>open_succeeds = True, tracking_succeeds = True, svo_number_of_frames = 2,
      grab = (\<lambda>k. if k = 1 then None else Some (sample_pose (1000 + int k)))\<rparr>"

text \<open>The file written for the sample recording.\<close>

definition sample_csv :: "py_float csv_file" where
  "sample_csv =
     \<lparr>csv_header = [[], ''Timestamp'', ''Tx'', ''Ty'', ''Tz'', ''Qx'', ''Qy'', ''Qz'', ''Qw''],
      csv_lines =
        [[IntCell 0, FloatCell (FloatOfInt 1000),
          FloatCell (Round3 (FloatLiteral ''1.2344'')), FloatCell (Round3 (FloatLiteral ''0.0'')),
          FloatCell (Round3 (FloatLiteral ''-0.5006'')), FloatCell (Round3 (FloatLiteral ''0.0'')),
          FloatCell (Round3 (FloatLiteral ''0.0'')), FloatCell (Round3 (FloatLiteral ''0.7071'')),
          FloatCell (Round3 (FloatLiteral ''0.7071''))],
         [IntCell 1, FloatCell (FloatOfInt 1002),
          FloatCell (Round3 (FloatLiteral ''1.2344'')), FloatCell (Round3 (FloatLiteral ''0.0'')),
          FloatCell (Round3 (FloatLiteral ''-0.5006'')), FloatCell (Round3 (FloatLiteral ''0.0'')),
          FloatCell (Round3 (FloatLiteral ''0.0'')), FloatCell (Round3 (FloatLiteral ''0.7071'')),
          FloatCell (Round3 (FloatLiteral ''0.7071''))]]\<rparr>"

section \<open>Properties of the reconnect handling\<close>

subsection \<open>What each operation leaves alone\<close>

lemma print_fields [simp]:
  "announced_buffers (print l s) = announced_buffers s"
  "queued_buffers (print l s) = queued_buffers s"
  "is_grabbing (print l s) = is_grabbing s"
  "payload_size (print l s) = payload_size s"
  "num_buffers_announced_min_required (print l s) = num_buffers_announced_min_required s"
  "acquisition_running (print l s) = acquisition_running s"
  "remote_acquisition_started (print l s) = remote_acquisition_started s"
  "registered_callbacks (print l s) = registered_callbacks s"
  "library_open (print l s) = library_open s"
  "trace (print l s) = trace s"
  by (simp_all add: print_def)

lemma Execute_fields [simp]:
  "announced_buffers (Execute n s) = announced_buffers s"
  "queued_buffers (Execute n s) = queued_buffers s"
  "is_grabbing (Execute n s) = is_grabbing s"
  "acquisition_running (Execute n s) = acquisition_running s"
  "trace (Execute n s) = trace s @ [(EvExecute n, is_grabbing s)]"
  by (simp_all add: Execute_def record_event_def Let_def)

lemma StopAcquisition_fields [simp]:
  "payload_size (StopAcquisition s) = payload_size s"
  "num_buffers_announced_min_required (StopAcquisition s) = num_buffers_announced_min_required s"
  "announced_buffers (StopAcquisition s) = announced_buffers s"
  "acquisition_running (StopAcquisition s) = acquisition_running s"
  "is_grabbing (StopAcquisition s) = False"
  "trace (StopAcquisition s) = trace s @ [(EvStopAcquisition, is_grabbing s)]"
  by (simp_all add: StopAcquisition_def record_event_def)

lemma StartAcquisition_fields [simp]:
  "announced_buffers (StartAcquisition s) = announced_buffers s"
  "queued_buffers (StartAcquisition s) = queued_buffers s"
  "acquisition_running (StartAcquisition s) = acquisition_running s"
  "is_grabbing (StartAcquisition s) = True"
  "trace (StartAcquisition s) = trace s @ [(EvStartAcquisition, is_grabbing s)]"
  by (simp_all add: StartAcquisition_def record_event_def)

subsection \<open>Revoking and allocating\<close>

lemma fold_remove1_prefix: "fold remove1 xs (xs @ ys) = ys"
  by (induction xs) simp_all

lemma fold_RevokeBuffer_announced:
  "announced_buffers (fold RevokeBuffer xs s) = fold remove1 xs (announced_buffers s)"
  by (induction xs arbitrary: s) (simp_all add: RevokeBuffer_def record_event_def)

lemma fold_RevokeBuffer_fields:
  "queued_buffers (fold RevokeBuffer xs s) = queued_buffers s"
  "is_grabbing (fold RevokeBuffer xs s) = is_grabbing s"
  "payload_size (fold RevokeBuffer xs s) = payload_size s"
  "num_buffers_announced_min_required (fold RevokeBuffer xs s) = num_buffers_announced_min_required s"
  "acquisition_running (fold RevokeBuffer xs s) = acquisition_running s"
  by (induction xs arbitrary: s; simp add: RevokeBuffer_def record_event_def)+

lemma fold_RevokeBuffer_trace:
  "trace (fold RevokeBuffer xs s) = trace s @ map (\<lambda>b. (EvRevokeBuffer b, is_grabbing s)) xs"
  by (induction xs arbitrary: s) (simp_all add: RevokeBuffer_def record_event_def)

lemma revoke_buffers_fields:
  "announced_buffers (revoke_buffers s) = []"
  "queued_buffers (revoke_buffers s) = []"
  "is_grabbing (revoke_buffers s) = is_grabbing s"
  "payload_size (revoke_buffers s) = payload_size s"
  "num_buffers_announced_min_required (revoke_buffers s) = num_buffers_announced_min_required s"
  "acquisition_running (revoke_buffers s) = acquisition_running s"
  using fold_remove1_prefix [of "announced_buffers s" "[]"]
  by (simp_all add: revoke_buffers_def Let_def fold_RevokeBuffer_announced fold_RevokeBuffer_fields
      Flush_DiscardAll_def record_event_def)

lemma revoke_buffers_trace:
  "trace (revoke_buffers s) =
     trace s @ (EvFlush, is_grabbing s)
       # map (\<lambda>b. (EvRevokeBuffer b, is_grabbing s)) (announced_buffers s)"
  by (simp add: revoke_buffers_def Let_def fold_RevokeBuffer_trace Flush_DiscardAll_def
      record_event_def)

lemma alloc_loop_sizes:
  "map buf_size (announced_buffers (alloc_loop n sz s))
     = map buf_size (announced_buffers s) @ replicate n sz"
  "map buf_size (queued_buffers (alloc_loop n sz s))
     = map buf_size (queued_buffers s) @ replicate n sz"
  by (induction n arbitrary: s;
      simp add: AllocAndAnnounceBuffer_def QueueBuffer_def record_event_def Let_def
        replicate_app_Cons_same)+

lemma alloc_loop_fields:
  "is_grabbing (alloc_loop n sz s) = is_grabbing s"
  "payload_size (alloc_loop n sz s) = payload_size s"
  "num_buffers_announced_min_required (alloc_loop n sz s) = num_buffers_announced_min_required s"
  "acquisition_running (alloc_loop n sz s) = acquisition_running s"
  by (induction n arbitrary: s;
      simp add: AllocAndAnnounceBuffer_def QueueBuffer_def record_event_def Let_def)+

lemma alloc_loop_trace:
  "\<exists>evs. trace (alloc_loop n sz s) = trace s @ evs \<and> snd ` set evs \<subseteq> {is_grabbing s}"
proof (induction n arbitrary: s)
  case 0
  then show ?case by simp
next
  case (Suc n)
  define b where "b = \<lparr>buf_id = next_buffer_id s, buf_size = sz\<rparr>"
  define s2 where "s2 = QueueBuffer b (snd (AllocAndAnnounceBuffer sz s))"
  have unfold_step: "alloc_loop (Suc n) sz s = alloc_loop n sz s2"
    by (simp add: s2_def b_def AllocAndAnnounceBuffer_def Let_def)
  have g: "is_grabbing s2 = is_grabbing s"
    by (simp add: s2_def AllocAndAnnounceBuffer_def QueueBuffer_def record_event_def Let_def)
  have t: "trace s2 = trace s @ [(EvAllocAndAnnounceBuffer b, is_grabbing s),
                                 (EvQueueBuffer b, is_grabbing s)]"
    by (simp add: s2_def b_def AllocAndAnnounceBuffer_def QueueBuffer_def record_event_def Let_def)
  from Suc.IH [of s2] obtain evs where
    "trace (alloc_loop n sz s2) = trace s2 @ evs" "snd ` set evs \<subseteq> {is_grabbing s2}"
    by blast
  then show ?case unfolding unfold_step using g t by auto
qed

lemma realloc_pool:
  "map buf_size (announced_buffers (alloc_buffers (revoke_buffers s)))
     = replicate (num_buffers_announced_min_required s) (payload_size s)"
  "map buf_size (queued_buffers (alloc_buffers (revoke_buffers s)))
     = replicate (num_buffers_announced_min_required s) (payload_size s)"
  "is_grabbing (alloc_buffers (revoke_buffers s)) = is_grabbing s"
  "acquisition_running (alloc_buffers (revoke_buffers s)) = acquisition_running s"
  by (simp_all add: alloc_buffers_def Let_def alloc_loop_sizes alloc_loop_fields
      revoke_buffers_fields)

lemma realloc_trace:
  "\<exists>evs. trace (alloc_buffers (revoke_buffers s)) =
           trace s @ (EvFlush, is_grabbing s)
             # map (\<lambda>b. (EvRevokeBuffer b, is_grabbing s)) (announced_buffers s) @ evs
         \<and> snd ` set evs \<subseteq> {is_grabbing s}"
proof -
  obtain evs where e: "trace (alloc_buffers (revoke_buffers s)) = trace (revoke_buffers s) @ evs"
    "snd ` set evs \<subseteq> {is_grabbing (revoke_buffers s)}"
    unfolding alloc_buffers_def Let_def using alloc_loop_trace by blast
  show ?thesis
    using e by (auto simp: revoke_buffers_trace revoke_buffers_fields)
qed

subsection \<open>The reconnect callback\<close>

text \<open>
  Claim C1. The reconnect callback fires with \<open>IsSuccessful() = False\<close>, the device
  reports payload size \<open>P2\<close>, and the first announced buffer has a different size
  \<open>P1\<close>. Then the callback returns without raising, every announced buffer (and every
  queued buffer) has size \<open>P2\<close>, and there are exactly
  \<open>NumBuffersAnnouncedMinRequired()\<close> of them.
\<close>

theorem reconnect_failed_reallocates_pool:
  assumes "\<not> IsSuccessful info"
    and "announced_buffers s = b0 # rest"
    and "buf_size b0 = P1" and "payload_size s = P2" and "P1 \<noteq> P2"
  shows "\<exists>s'. device_reconnected key info s = Inr s'
           \<and> map buf_size (announced_buffers s')
               = replicate (num_buffers_announced_min_required s) P2
           \<and> map buf_size (queued_buffers s')
               = replicate (num_buffers_announced_min_required s) P2"
  using assms
  by (simp add: device_reconnected_def ensure_compatible_buffers_and_restart_acquisition_def
      Let_def realloc_pool)

theorem reconnect_failed_reallocates_pool_witness:
  "\<not> IsSuccessful failed_reconnect
   \<and> announced_buffers example_cam
       = [\<lparr>buf_id = 0, buf_size = 1024\<rparr>, \<lparr>buf_id = 1, buf_size = 1024\<rparr>]
   \<and> payload_size example_cam = 2048
   \<and> (\<exists>s'. device_reconnected ''cam0'' failed_reconnect example_cam = Inr s'
         \<and> map buf_size (announced_buffers s') = [2048, 2048, 2048]
         \<and> map buf_size (queued_buffers s') = [2048, 2048, 2048])"
  using reconnect_failed_reallocates_pool [of failed_reconnect example_cam
      "\<lparr>buf_id = 0, buf_size = 1024\<rparr>" "[\<lparr>buf_id = 1, buf_size = 1024\<rparr>]" 1024 2048 "''cam0''"]
  by (simp add: failed_reconnect_def example_cam_def numeral_3_eq_3)

text \<open>
  Claim C2. In the recovery procedure every call that changes the buffer pool (flush,
  revoke, allocate-and-announce, queue) is made while the stream is not grabbing; and
  if the stream is grabbing when the mismatch is found, the first call of the procedure
  is \<open>StopAcquisition\<close>, made before the first buffer is revoked.
\<close>

theorem recovery_mutates_pool_only_when_stopped:
  assumes "announced_buffers s = b0 # rest"
  shows "\<exists>s' evs. ensure_compatible_buffers_and_restart_acquisition info s = Inr s'
           \<and> trace s' = trace s @ evs
           \<and> (\<forall>(ev, g) \<in> set evs. is_pool_mutation ev \<longrightarrow> \<not> g)
           \<and> (is_grabbing s \<and> payload_size s \<noteq> buf_size b0
                \<longrightarrow> (\<exists>evs'. evs = (EvStopAcquisition, True) # evs'
                       \<and> (EvRevokeBuffer b0, False) \<in> set evs'))"
proof (cases "payload_size s \<noteq> buf_size b0")
  case False
  then show ?thesis using assms
    by (auto simp: ensure_compatible_buffers_and_restart_acquisition_def Let_def
        is_pool_mutation_def)
next
  case mismatch: True
  define s0 where "s0 = print ''PayloadSize has changed. Reallocating buffers...'' s"
  define s1 where "s1 = (if is_grabbing s then StopAcquisition s0 else s0)"
  define s3 where "s3 = alloc_buffers (revoke_buffers s1)"
  define s4 where "s4 = (if is_grabbing s then StartAcquisition s3 else s3)"
  define s5 where "s5 = (if \<not> IsRemoteDeviceAcquisitionRunning info
                         then Execute ''AcquisitionStart'' s4 else s4)"
  define pre where "pre = (if is_grabbing s then [(EvStopAcquisition, True)] else [])"
  have res: "ensure_compatible_buffers_and_restart_acquisition info s = Inr s5"
    using assms mismatch
    by (simp add: ensure_compatible_buffers_and_restart_acquisition_def Let_def
        s5_def s4_def s3_def s1_def s0_def)
  have g1: "\<not> is_grabbing s1" by (simp add: s1_def s0_def)
  have t1: "trace s1 = trace s @ pre"
    by (simp add: s1_def s0_def pre_def)
  have a1: "announced_buffers s1 = b0 # rest" using assms by (simp add: s1_def s0_def)
  obtain evs3 where t3: "trace s3 = trace s1 @ (EvFlush, False)
        # map (\<lambda>b. (EvRevokeBuffer b, False)) (b0 # rest) @ evs3"
      and f3: "snd ` set evs3 \<subseteq> {False}"
    using realloc_trace [of s1] g1 a1 unfolding s3_def by auto
  define post where "post =
      (if is_grabbing s then [(EvStartAcquisition, is_grabbing s3)] else [])
      @ (if \<not> IsRemoteDeviceAcquisitionRunning info
         then [(EvExecute ''AcquisitionStart'', is_grabbing s4)] else [])"
  have t5: "trace s5 = trace s3 @ post"
    by (simp add: s5_def s4_def post_def)
  have p5: "\<forall>(ev, g) \<in> set post. \<not> is_pool_mutation ev"
    by (auto simp: post_def is_pool_mutation_def)
  define evs where "evs = pre @ (EvFlush, False)
        # map (\<lambda>b. (EvRevokeBuffer b, False)) (b0 # rest) @ evs3 @ post"
  have tr: "trace s5 = trace s @ evs"
    by (simp add: t5 t3 t1 evs_def)
  have safe: "\<forall>(ev, g) \<in> set evs. is_pool_mutation ev \<longrightarrow> \<not> g"
    using f3 p5 by (auto simp: evs_def pre_def is_pool_mutation_def)
  have first: "is_grabbing s \<longrightarrow> (\<exists>evs'. evs = (EvStopAcquisition, True) # evs'
                       \<and> (EvRevokeBuffer b0, False) \<in> set evs')"
    by (simp add: evs_def pre_def)
  show ?thesis using res tr safe first by blast
qed

theorem recovery_mutates_pool_only_when_stopped_witness:
  "is_grabbing example_cam
   \<and> payload_size example_cam \<noteq> buf_size \<lparr>buf_id = 0, buf_size = 1024\<rparr>
   \<and> (\<exists>s' evs. ensure_compatible_buffers_and_restart_acquisition failed_reconnect example_cam
                  = Inr s'
         \<and> trace s' = trace example_cam @ evs
         \<and> (\<forall>(ev, g) \<in> set evs. is_pool_mutation ev \<longrightarrow> \<not> g)
         \<and> (\<exists>evs'. evs = (EvStopAcquisition, True) # evs'
                \<and> (EvRevokeBuffer \<lparr>buf_id = 0, buf_size = 1024\<rparr>, False) \<in> set evs'))"
proof -
  have a: "announced_buffers example_cam
             = \<lparr>buf_id = 0, buf_size = 1024\<rparr> # [\<lparr>buf_id = 1, buf_size = 1024\<rparr>]"
    by (simp add: example_cam_def)
  have g: "is_grabbing example_cam" by (simp add: example_cam_def)
  have m: "payload_size example_cam \<noteq> buf_size \<lparr>buf_id = 0, buf_size = 1024\<rparr>"
    by (simp add: example_cam_def)
  show ?thesis
    using recovery_mutates_pool_only_when_stopped [OF a, of failed_reconnect] g m by blast
qed

text \<open>
  Claim C3. When the recovery procedure meets a payload-size mismatch, the stream's
  grabbing state after the procedure is the one before it: grabbing stays grabbing,
  stopped stays stopped.
\<close>

theorem recovery_preserves_grabbing:
  assumes "announced_buffers s = b0 # rest" and "payload_size s \<noteq> buf_size b0"
  shows "\<exists>s'. ensure_compatible_buffers_and_restart_acquisition info s = Inr s'
           \<and> is_grabbing s' = is_grabbing s"
  using assms
  by (simp add: ensure_compatible_buffers_and_restart_acquisition_def Let_def realloc_pool)

theorem recovery_preserves_grabbing_witness:
  "(\<exists>s'. ensure_compatible_buffers_and_restart_acquisition failed_reconnect example_cam = Inr s'
         \<and> is_grabbing s')
   \<and> (\<exists>s'. ensure_compatible_buffers_and_restart_acquisition failed_reconnect
              (example_cam\<lparr>is_grabbing := False\<rparr>) = Inr s'
         \<and> \<not> is_grabbing s')"
  using recovery_preserves_grabbing [of example_cam "\<lparr>buf_id = 0, buf_size = 1024\<rparr>"
      "[\<lparr>buf_id = 1, buf_size = 1024\<rparr>]" failed_reconnect]
    recovery_preserves_grabbing [of "example_cam\<lparr>is_grabbing := False\<rparr>"
      "\<lparr>buf_id = 0, buf_size = 1024\<rparr>" "[\<lparr>buf_id = 1, buf_size = 1024\<rparr>]" failed_reconnect]
  by (simp add: example_cam_def)

text \<open>
  Claim C4. When the reconnect information reports success, the callback only prints:
  it returns without raising, and the announced buffers, the queued buffers, the
  stream's grabbing state, the loop's \<open>acquisition_running\<close> flag, the remote
  acquisition state and the list of SDK calls made are what they were.
\<close>

theorem reconnect_successful_is_noop:
  assumes "IsSuccessful info"
  shows "\<exists>s'. device_reconnected key info s = Inr s'
           \<and> announced_buffers s' = announced_buffers s
           \<and> queued_buffers s' = queued_buffers s
           \<and> is_grabbing s' = is_grabbing s
           \<and> acquisition_running s' = acquisition_running s
           \<and> remote_acquisition_started s' = remote_acquisition_started s
           \<and> trace s' = trace s"
  using assms by (simp add: device_reconnected_def Let_def)

theorem reconnect_successful_is_noop_witness:
  "IsSuccessful successful_reconnect
   \<and> (\<exists>s'. device_reconnected ''cam0'' successful_reconnect example_cam = Inr s'
         \<and> announced_buffers s' = announced_buffers example_cam
         \<and> queued_buffers s' = queued_buffers example_cam
         \<and> is_grabbing s' = is_grabbing example_cam
         \<and> acquisition_running s' = acquisition_running example_cam
         \<and> remote_acquisition_started s' = remote_acquisition_started example_cam
         \<and> trace s' = trace example_cam)"
  using reconnect_successful_is_noop [of successful_reconnect "''cam0''" example_cam]
  by (simp add: successful_reconnect_def)

section \<open>Properties of the acquisition loop and of the main routine\<close>

subsection \<open>The loop\<close>

lemma acquisition_running_iterations:
  "acquisition_running s \<Longrightarrow>
   \<forall>ev \<in> set evs. (case ev of Finished b f \<Rightarrow> True | WaitRaises e \<Rightarrow> is_Exception e) \<Longrightarrow>
   fst (acquisition_iterations evs s) = WaitsForever"
proof (induction evs s rule: acquisition_iterations.induct)
  case (1 s)
  then show ?case by simp
next
  case (2 b frame_id evs s)
  then show ?case by (simp add: QueueBuffer_def record_event_def print_def)
next
  case (3 e evs s)
  then show ?case by (auto simp: print_def)
qed

lemmas run_defs = run_def run_body_def and_then_def statement_def open_device_def
  enable_reconnect_def load_defaults_def run_acquisition_loop_def finally_block_def
  unregister_callbacks_def UnregisterCallback_def Library_Close_def IDSCam_init_def
  register_callbacks_def alloc_buffers_def revoke_buffers_def
  SetValue_def StartAcquisition_def StopAcquisition_def Execute_def WaitUntilDone_def
  SetCurrentEntry_def QueueBuffer_def AllocAndAnnounceBuffer_def Flush_DiscardAll_def
  RevokeBuffer_def record_event_def print_def Let_def

lemma iterations_receivable:
  "acquisition_running s \<Longrightarrow> \<forall>ev \<in> set evs. receivable ev \<Longrightarrow>
   (fst (acquisition_iterations evs s) = WaitsForever
      \<and> WaitRaises KeyboardInterrupt \<notin> set evs)
   \<or> (fst (acquisition_iterations evs s) = Break
      \<and> WaitRaises KeyboardInterrupt \<in> set evs)"
proof (induction evs s rule: acquisition_iterations.induct)
  case (1 s)
  then show ?case by simp
next
  case (2 b frame_id evs s)
  then show ?case by (simp add: QueueBuffer_def record_event_def print_def)
next
  case (3 e evs s)
  then show ?case by (auto simp: print_def wait_can_raise_def)
qed

text \<open>
  Claim C5. While the loop runs, an exception raised while waiting for a finished
  buffer that is not a user interrupt is printed and the loop goes on with the next
  wait; \<open>KeyboardInterrupt\<close> is printed and ends the loop by \<open>break\<close>; and whatever
  the waits deliver or raise, the loop either is still waiting or has ended by that
  \<open>break\<close>, which happens only if one of the waits raised \<open>KeyboardInterrupt\<close>: no
  other exception of a wait ends the session.
\<close>

theorem acquisition_loop_absorbs_wait_exceptions:
  assumes "acquisition_running s" and "\<forall>ev \<in> set evs. receivable ev"
  shows "(wait_can_raise e \<and> e \<noteq> KeyboardInterrupt \<longrightarrow>
            acquisition_iterations (WaitRaises e # evs) s
              = acquisition_iterations evs (print (''Exception: '' @ str_exception e) s))
       \<and> acquisition_iterations (WaitRaises KeyboardInterrupt # evs) s
              = (Break, print ''Keyboard interrupt.'' s)
       \<and> ((fst (acquisition_iterations evs s) = WaitsForever
              \<and> WaitRaises KeyboardInterrupt \<notin> set evs)
           \<or> (fst (acquisition_iterations evs s) = Break
              \<and> WaitRaises KeyboardInterrupt \<in> set evs))"
  using assms iterations_receivable [of s evs] by (auto simp: wait_can_raise_def)

theorem acquisition_loop_absorbs_wait_exceptions_witness:
  "acquisition_running example_cam
   \<and> wait_can_raise AbortedException \<and> AbortedException \<noteq> KeyboardInterrupt
   \<and> acquisition_iterations
        (WaitRaises AbortedException
          # [Finished \<lparr>buf_id = 0, buf_size = 1024\<rparr> ''7'', WaitRaises (OtherException ''timeout'')])
        example_cam
       = acquisition_iterations
           [Finished \<lparr>buf_id = 0, buf_size = 1024\<rparr> ''7'', WaitRaises (OtherException ''timeout'')]
           (print (''Exception: '' @ str_exception AbortedException) example_cam)
   \<and> acquisition_iterations
        (WaitRaises KeyboardInterrupt
          # [Finished \<lparr>buf_id = 0, buf_size = 1024\<rparr> ''7'', WaitRaises (OtherException ''timeout'')])
        example_cam
       = (Break, print ''Keyboard interrupt.'' example_cam)
   \<and> fst (acquisition_iterations
        [Finished \<lparr>buf_id = 0, buf_size = 1024\<rparr> ''7'', WaitRaises (OtherException ''timeout'')]
        example_cam) = WaitsForever"
proof -
  have r: "acquisition_running example_cam" by (simp add: example_cam_def)
  have q: "\<forall>ev \<in> set [Finished \<lparr>buf_id = 0, buf_size = 1024\<rparr> ''7'',
                        WaitRaises (OtherException ''timeout'')]. receivable ev"
    by (simp add: wait_can_raise_def)
  show ?thesis
    using acquisition_loop_absorbs_wait_exceptions [OF r q, of AbortedException] r
    by (simp add: wait_can_raise_def)
qed

subsection \<open>What the \<open>try\<close> block leaves alone\<close>


lemma registry_ops [simp]:
  "registry (print l s) = registry s"
  "registry (record_event ev s) = registry s"
  "registry (SetValue n v s) = registry s"
  "registry (StartAcquisition s) = registry s"
  "registry (StopAcquisition s) = registry s"
  "registry (Execute n s) = registry s"
  "registry (WaitUntilDone n s) = registry s"
  "registry (SetCurrentEntry n x s) = registry s"
  "registry (QueueBuffer b s) = registry s"
  "registry (RevokeBuffer b s) = registry s"
  "registry (Flush_DiscardAll s) = registry s"
  "registry (snd (AllocAndAnnounceBuffer sz s)) = registry s"
  by (simp_all add: registry_def print_def record_event_def SetValue_def StartAcquisition_def
      StopAcquisition_def Execute_def WaitUntilDone_def SetCurrentEntry_def QueueBuffer_def
      RevokeBuffer_def Flush_DiscardAll_def AllocAndAnnounceBuffer_def Let_def)

lemma registry_alloc_loop: "registry (alloc_loop n sz s) = registry s"
  by (induction n arbitrary: s) (simp_all add: split_beta)

lemma registry_alloc_buffers [simp]: "registry (alloc_buffers s) = registry s"
  by (simp add: alloc_buffers_def Let_def registry_alloc_loop)

lemma registry_fold_Revoke: "registry (fold RevokeBuffer xs s) = registry s"
  by (induction xs arbitrary: s) simp_all

lemma registry_revoke_buffers [simp]: "registry (revoke_buffers s) = registry s"
  by (simp add: revoke_buffers_def Let_def registry_fold_Revoke)

lemma registry_field_update [simp]:
  "registry (s\<lparr>queued_buffers := q\<rparr>) = registry s"
  "registry (s\<lparr>acquisition_running := r\<rparr>) = registry s"
  "registry (s\<lparr>device := d\<rparr>) = registry s"
  "registry (s\<lparr>reconnect_enable := e\<rparr>) = registry s"
  by (simp_all add: registry_def)

lemma registry_iterations: "registry (snd (acquisition_iterations evs s)) = registry s"
  by (induction evs s rule: acquisition_iterations.induct) simp_all

lemma registry_run_acquisition_loop:
  "registry (snd (run_acquisition_loop evs s)) = registry s"
proof -
  define s7 where "s7 = print ''Now you can disconnect or reboot the device to trigger a reconnect!''
      (print ''Starting acquisition...''
        ((WaitUntilDone ''AcquisitionStart'' (Execute ''AcquisitionStart''
          (StartAcquisition (SetValue ''TLParamsLocked'' 1 s))))\<lparr>acquisition_running := True\<rparr>))"
  have r7: "registry s7 = registry s" by (simp add: s7_def)
  obtain e s8 where it: "acquisition_iterations evs s7 = (e, s8)" by (cases "acquisition_iterations evs s7")
  have r8: "registry s8 = registry s"
    using registry_iterations [of evs s7] it r7 by simp
  show ?thesis
    using it r8 by (cases e) (simp_all add: run_acquisition_loop_def Let_def s7_def [symmetric])
qed

lemma registry_open_device: "registry (snd (open_device w s)) = registry s"
  by (simp add: open_device_def split: option.splits)

lemma registry_enable_reconnect: "registry (snd (enable_reconnect w s)) = registry s"
  by (simp add: enable_reconnect_def)

lemma registry_statement:
  "(\<And>s. registry (snd (f s)) = registry s) \<Longrightarrow> registry (snd (statement w st f s)) = registry s"
  by (simp add: statement_def split: option.splits)

lemma registry_and_then:
  assumes "\<And>s. registry (snd (f s)) = registry s" and "\<And>s. registry (snd (g s)) = registry s"
  shows "registry (snd (and_then f g s)) = registry s"
proof (cases "f s")
  case (Pair r s1)
  then have "registry s1 = registry s" using assms(1) [of s] by simp
  then show ?thesis using Pair assms(2) [of s1] by (cases r) (simp_all add: and_then_def)
qed

lemma registry_run_body: "registry (snd (run_body w s)) = registry s"
  unfolding run_body_def
  by (intro registry_and_then registry_statement registry_open_device registry_enable_reconnect
      registry_run_acquisition_loop) (simp_all add: load_defaults_def)

lemma unregister_all:
  "registered_callbacks s = [CbFound, CbLost, CbReconnected, CbDisconnected] \<Longrightarrow>
   registered_callbacks (unregister_callbacks s) = []"
  by (simp add: unregister_callbacks_def UnregisterCallback_def)

lemma iterations_end:
  "\<exists>ev \<in> set evs. ends_loop ev \<Longrightarrow> fst (acquisition_iterations evs s) \<noteq> WaitsForever"
  by (induction evs s rule: acquisition_iterations.induct) auto

lemma run_acquisition_loop_returns:
  "\<exists>ev \<in> set evs. ends_loop ev \<Longrightarrow> fst (run_acquisition_loop evs s) \<noteq> Blocked"
proof -
  assume a: "\<exists>ev \<in> set evs. ends_loop ev"
  define s7 where "s7 = print ''Now you can disconnect or reboot the device to trigger a reconnect!''
      (print ''Starting acquisition...''
        ((WaitUntilDone ''AcquisitionStart'' (Execute ''AcquisitionStart''
          (StartAcquisition (SetValue ''TLParamsLocked'' 1 s))))\<lparr>acquisition_running := True\<rparr>))"
  obtain e s8 where it: "acquisition_iterations evs s7 = (e, s8)" by (cases "acquisition_iterations evs s7")
  have "e \<noteq> WaitsForever" using iterations_end [OF a, of s7] it by simp
  then show ?thesis
    using it by (cases e) (simp_all add: run_acquisition_loop_def Let_def s7_def [symmetric])
qed

lemma statement_not_blocked:
  "(\<And>s. fst (f s) \<noteq> Blocked) \<Longrightarrow> fst (statement w st f s) \<noteq> Blocked"
  by (simp add: statement_def split: option.splits)

lemma and_then_not_blocked:
  assumes "\<And>s. fst (f s) \<noteq> Blocked" and "\<And>s. fst (g s) \<noteq> Blocked"
  shows "fst (and_then f g s) \<noteq> Blocked"
proof (cases "f s")
  case (Pair r s1)
  then have "r \<noteq> Blocked" using assms(1) [of s] by auto
  then show ?thesis using Pair assms(2) [of s1] by (cases r) (simp_all add: and_then_def)
qed

lemma run_body_returns:
  assumes "\<exists>ev \<in> set (wait_outcomes w). ends_loop ev"
  shows "fst (run_body w s) \<noteq> Blocked"
  unfolding run_body_def
  by (intro and_then_not_blocked statement_not_blocked run_acquisition_loop_returns [OF assms])
    (simp_all add: open_device_def enable_reconnect_def split: option.splits)

subsection \<open>Cleanup\<close>

text \<open>
  Claim C6. With the four callbacks registered as \<open>__init__\<close> leaves them, whenever
  \<open>run\<close> comes to an end (by returning \<open>None\<close> or \<open>-2\<close>, or by passing on an
  exception that no clause caught), the four callbacks have been unregistered and the
  library has been closed. And \<open>run\<close> does come to an end whenever one of the buffer
  waits raises an exception that ends the loop.
\<close>

theorem run_always_cleans_up:
  assumes "registered_callbacks s = [CbFound, CbLost, CbReconnected, CbDisconnected]"
  shows "(fst (run w s) \<noteq> Blocked \<longrightarrow>
            registered_callbacks (snd (run w s)) = [] \<and> \<not> library_open (snd (run w s)))
       \<and> ((\<exists>ev \<in> set (wait_outcomes w). ends_loop ev) \<longrightarrow> fst (run w s) \<noteq> Blocked)"
proof -
  obtain r s1 where b: "run_body w s = (r, s1)" by (cases "run_body w s")
  have "registry s1 = registry s" using registry_run_body [of w s] b by simp
  then have reg: "registered_callbacks s1 = [CbFound, CbLost, CbReconnected, CbDisconnected]"
    using assms by (simp add: registry_def)
  have fin: "\<And>v l. registered_callbacks (snd (finally_block v (print l s1))) = []
                 \<and> \<not> library_open (snd (finally_block v (print l s1)))"
       "\<And>v. registered_callbacks (snd (finally_block v s1)) = []
                 \<and> \<not> library_open (snd (finally_block v s1))"
    using reg by (simp_all add: finally_block_def Library_Close_def unregister_all print_def)
  have one: "fst (run w s) \<noteq> Blocked \<longrightarrow>
            registered_callbacks (snd (run w s)) = [] \<and> \<not> library_open (snd (run w s))"
    using b fin by (cases r) (simp_all add: run_def)
  have two: "(\<exists>ev \<in> set (wait_outcomes w). ends_loop ev) \<longrightarrow> fst (run w s) \<noteq> Blocked"
  proof
    assume "\<exists>ev \<in> set (wait_outcomes w). ends_loop ev"
    then have "r \<noteq> Blocked" using run_body_returns [of w s] b by simp
    then show "fst (run w s) \<noteq> Blocked"
      using b by (cases r) (simp_all add: run_def finally_block_def)
  qed
  show ?thesis using one two by blast
qed

theorem run_always_cleans_up_witness:
  "registered_callbacks (IDSCam_init 2048 3) = [CbFound, CbLost, CbReconnected, CbDisconnected]
   \<and> fst (run normal_world (IDSCam_init 2048 3)) = Returned None
   \<and> registry (snd (run normal_world (IDSCam_init 2048 3))) = ([], False)
   \<and> fst (run aborted_world (IDSCam_init 2048 3)) = Returned None
   \<and> registry (snd (run aborted_world (IDSCam_init 2048 3))) = ([], False)
   \<and> fst (run no_device_world (IDSCam_init 2048 3)) = Returned (Some (- 2))
   \<and> registry (snd (run no_device_world (IDSCam_init 2048 3))) = ([], False)
   \<and> fst (run interrupted_world (IDSCam_init 2048 3)) = Raised KeyboardInterrupt
   \<and> registry (snd (run interrupted_world (IDSCam_init 2048 3))) = ([], False)"
proof -
  have i: "registered_callbacks (IDSCam_init 2048 3) = [CbFound, CbLost, CbReconnected, CbDisconnected]"
    by (simp add: IDSCam_init_def register_callbacks_def)
  have f: "fst (run normal_world (IDSCam_init 2048 3)) = Returned None"
    "fst (run aborted_world (IDSCam_init 2048 3)) = Returned None"
    "fst (run no_device_world (IDSCam_init 2048 3)) = Returned (Some (- 2))"
    "fst (run interrupted_world (IDSCam_init 2048 3)) = Raised KeyboardInterrupt"
    by (simp_all add: run_defs normal_world_def aborted_world_def no_device_world_def
        interrupted_world_def numeral_3_eq_3)
  show ?thesis
    using run_always_cleans_up [OF i, of normal_world] run_always_cleans_up [OF i, of aborted_world]
      run_always_cleans_up [OF i, of no_device_world]
      run_always_cleans_up [OF i, of interrupted_world] i f
    by (simp add: registry_def)
qed

subsection \<open>The value of \<open>run\<close>\<close>




section \<open>Properties of the capture orchestrator\<close>

lemma say_fields [simp]:
  "subprocess_calls (say l s) = subprocess_calls s"
  "stdout_lines (say l s) = stdout_lines s @ [l]"
  by (simp_all add: say_def)

lemma failures_logged_say: "failures_logged env s \<Longrightarrow> failures_logged env (say l s)"
  by (auto simp: failures_logged_def split: subprocess_result.splits)

lemma failures_logged_call:
  assumes "failures_logged env s"
    and "subprocess_calls s' = subprocess_calls s @ [command]"
    and "set (stdout_lines s) \<subseteq> set (stdout_lines s')"
    and "\<And>result. subprocess_run env (length (subprocess_calls s)) command = Completed result
          \<Longrightarrow> returncode result \<noteq> 0 \<Longrightarrow> stderr result \<in> set (stdout_lines s')"
  shows "failures_logged env s'"
  unfolding failures_logged_def
proof (intro allI impI)
  fix k assume k: "k < length (subprocess_calls s')"
  show "case subprocess_run env k (subprocess_calls s' ! k) of
          Completed result \<Rightarrow> returncode result \<noteq> 0 \<longrightarrow> stderr result \<in> set (stdout_lines s')
        | RunRaises e \<Rightarrow> True"
  proof (cases "k < length (subprocess_calls s)")
    case True
    then have "subprocess_calls s' ! k = subprocess_calls s ! k"
      using assms(2) by (simp add: nth_append)
    then show ?thesis
      using assms(1, 3) True by (auto simp: failures_logged_def split: subprocess_result.splits)
  next
    case False
    then have "k = length (subprocess_calls s)" using k assms(2) by simp
    then have "subprocess_calls s' ! k = command" using assms(2) by simp
    then show ?thesis
      using assms(4) \<open>k = length (subprocess_calls s)\<close> by (auto split: subprocess_result.splits)
  qed
qed

lemma run_step_block_completes:
  assumes "\<forall>k command. \<exists>result. subprocess_run env k command = Completed result"
  shows "\<exists>s'. run_step_block env command msg_ok msg_failed s = (None, s')
           \<and> subprocess_calls s' = subprocess_calls s @ [command]
           \<and> (failures_logged env s \<longrightarrow> failures_logged env s')"
proof -
  obtain result where r: "subprocess_run env (length (subprocess_calls s)) command = Completed result"
    using assms by blast
  define s1 where "s1 = s\<lparr>subprocess_calls := subprocess_calls s @ [command]\<rparr>"
  define s' where "s' = (if returncode result = 0 then say (stdout result) (say msg_ok s1)
                         else say (stderr result) (say msg_failed s1))"
  have res: "run_step_block env command msg_ok msg_failed s = (None, s')"
    using r by (simp add: run_step_block_def call_subprocess_def s'_def s1_def)
  have calls: "subprocess_calls s' = subprocess_calls s @ [command]"
    by (simp add: s'_def s1_def)
  have lines: "set (stdout_lines s) \<subseteq> set (stdout_lines s')"
    by (auto simp: s'_def s1_def)
  have err: "returncode result \<noteq> 0 \<Longrightarrow> stderr result \<in> set (stdout_lines s')"
    by (simp add: s'_def)
  have "failures_logged env s \<longrightarrow> failures_logged env s'"
    using failures_logged_call [of env s s' command] calls lines err r by auto
  then show ?thesis using res calls by blast
qed

lemma record_svo_completes:
  assumes "\<forall>k command. \<exists>result. subprocess_run env k command = Completed result"
  shows "\<exists>s'. record_svo env svo_file command s = (None, s')
           \<and> subprocess_calls s' = subprocess_calls s @ [command]
           \<and> (failures_logged env s \<longrightarrow> failures_logged env s')"
proof -
  define s0 where "s0 = say (''######################### RECORDING SVO FILE '' @ svo_file
                    @ '' #########################'') s"
  obtain result where r: "subprocess_run env (length (subprocess_calls s0)) command = Completed result"
    using assms by blast
  define s1 where "s1 = s0\<lparr>subprocess_calls := subprocess_calls s0 @ [command]\<rparr>"
  define s' where "s' = (if returncode result = 0
                         then say (stdout result) (say ''Recording execution successful!'' s1)
                         else say (stderr result) (say ''Recording execution failed.'' s1))"
  have res: "record_svo env svo_file command s = (None, s')"
    using r by (simp add: record_svo_def call_subprocess_def s'_def s1_def s0_def Let_def)
  have calls: "subprocess_calls s' = subprocess_calls s0 @ [command]"
    by (simp add: s'_def s1_def)
  have lines: "set (stdout_lines s0) \<subseteq> set (stdout_lines s')"
    by (auto simp: s'_def s1_def)
  have err: "returncode result \<noteq> 0 \<Longrightarrow> stderr result \<in> set (stdout_lines s')"
    by (simp add: s'_def)
  have "failures_logged env s0 \<longrightarrow> failures_logged env s'"
    using failures_logged_call [of env s0 s' command] calls lines err r by auto
  then have "failures_logged env s \<longrightarrow> failures_logged env s'"
    using failures_logged_say [of env s] by (auto simp: s0_def)
  then show ?thesis using res calls by (auto simp: s0_def)
qed

lemma enabled_block_completes:
  assumes "\<forall>k command. \<exists>result. subprocess_run env k command = Completed result"
  shows "\<exists>s'. if_enabled en (run_step_block env command msg_ok msg_failed) s = (None, s')
           \<and> subprocess_calls s' = subprocess_calls s @ (if en then [command] else [])
           \<and> (failures_logged env s \<longrightarrow> failures_logged env s')"
proof (cases en)
  case True
  then show ?thesis
    using run_step_block_completes [OF assms, of command msg_ok msg_failed s]
    by (simp add: if_enabled_def)
next
  case False
  then show ?thesis by (simp add: if_enabled_def)
qed

lemma record_stage_completes:
  assumes c: "\<forall>k command. \<exists>result. subprocess_run env k command = Completed result"
    and h: "pd_record pd \<and> pd_record_hsi pd \<longrightarrow> record_hsi_raises env = None"
  shows "\<exists>s'. if_enabled (pd_record pd)
                 (next_step (if_enabled (pd_record_hsi pd) (record_hsi_step env))
                            (if_enabled (pd_record_svo pd) (record_svo_step env t))) s = (None, s')
           \<and> subprocess_calls s' = subprocess_calls s
                @ (if pd_record pd \<and> pd_record_svo pd then [command_record t] else [])
           \<and> (failures_logged env s \<longrightarrow> failures_logged env s')"
proof (cases "pd_record pd")
  case False
  then show ?thesis by (simp add: if_enabled_def)
next
  case rec: True
  have hsi: "if_enabled (pd_record_hsi pd) (record_hsi_step env) s = (None, s)"
    using h rec by (simp add: if_enabled_def record_hsi_step_def)
  show ?thesis
  proof (cases "pd_record_svo pd")
    case False
    then show ?thesis using rec hsi by (simp add: if_enabled_def next_step_def)
  next
    case True
    obtain s' where "record_svo env output_svo_file (command_record t) s = (None, s')"
      "subprocess_calls s' = subprocess_calls s @ [command_record t]"
      "failures_logged env s \<longrightarrow> failures_logged env s'"
      using record_svo_completes [OF c, of output_svo_file "command_record t" s] by blast
    then show ?thesis
      using rec True hsi by (simp add: if_enabled_def next_step_def record_svo_step_def)
  qed
qed

lemma pose_stage_completes:
  assumes c: "\<forall>k command. \<exists>result. subprocess_run env k command = Completed result"
  shows "\<exists>s'. if_enabled en (\<lambda>s. run_step_block env command msg_ok msg_failed (say header s)) s
                = (None, s')
           \<and> subprocess_calls s' = subprocess_calls s @ (if en then [command] else [])
           \<and> (failures_logged env s \<longrightarrow> failures_logged env s')"
proof (cases en)
  case True
  then show ?thesis
    using run_step_block_completes [OF c, of command msg_ok msg_failed "say header s"]
      failures_logged_say [of env s header]
    by (auto simp: if_enabled_def)
next
  case False
  then show ?thesis by (simp add: if_enabled_def)
qed

lemma main_steps_complete:
  assumes c: "\<forall>k command. \<exists>result. subprocess_run env k command = Completed result"
    and h: "pd_record pd \<and> pd_record_hsi pd \<longrightarrow> record_hsi_raises env = None"
  shows "\<exists>s'. main_steps pd env t s = (None, s')
           \<and> subprocess_calls s' = subprocess_calls s @ configured_commands pd t
           \<and> (failures_logged env s \<longrightarrow> failures_logged env s')"
proof -
  obtain s1 where 1: "if_enabled (pd_record pd)
                 (next_step (if_enabled (pd_record_hsi pd) (record_hsi_step env))
                            (if_enabled (pd_record_svo pd) (record_svo_step env t))) s = (None, s1)"
      "subprocess_calls s1 = subprocess_calls s
         @ (if pd_record pd \<and> pd_record_svo pd then [command_record t] else [])"
      "failures_logged env s \<longrightarrow> failures_logged env s1"
    using record_stage_completes [OF c h, of t s] by blast
  obtain s2 where 2: "if_enabled (pd_export pd) (run_step_block env command_export
                    ''Pose estimation execution successful!''
                    ''Pose estimateion execution failed.'') s1 = (None, s2)"
      "subprocess_calls s2 = subprocess_calls s1 @ (if pd_export pd then [command_export] else [])"
      "failures_logged env s1 \<longrightarrow> failures_logged env s2"
    using enabled_block_completes [OF c, of "pd_export pd" command_export _ _ s1] by blast
  obtain s3 where 3: "if_enabled (pd_pose_post pd) (\<lambda>s. run_step_block env command_pose_post
                    ''Pose estimation execution successful!''
                    ''Pose estimateion execution failed.''
                    (say (''######################### Pose estimation from SVO FILE ''
                          @ output_svo_file @ '' #########################'') s)) s2 = (None, s3)"
      "subprocess_calls s3 = subprocess_calls s2 @ (if pd_pose_post pd then [command_pose_post] else [])"
      "failures_logged env s2 \<longrightarrow> failures_logged env s3"
    using pose_stage_completes [OF c, of "pd_pose_post pd" command_pose_post _ _ _ s2] by blast
  obtain s4 where 4: "if_enabled (pd_mesh_post pd) (run_step_block env command_mesh_post
                    ''Mesh estimation execution successful!''
                    ''Mesh estimation execution failed.'') s3 = (None, s4)"
      "subprocess_calls s4 = subprocess_calls s3 @ (if pd_mesh_post pd then [command_mesh_post] else [])"
      "failures_logged env s3 \<longrightarrow> failures_logged env s4"
    using enabled_block_completes [OF c, of "pd_mesh_post pd" command_mesh_post _ _ s3] by blast
  obtain s5 where 5: "if_enabled (pd_mesh_post pd) (run_step_block env command_mesh_post
                    ''Mesh estimation execution successful!''
                    ''Mesh estimation execution failed.'') s4 = (None, s5)"
      "subprocess_calls s5 = subprocess_calls s4 @ (if pd_mesh_post pd then [command_mesh_post] else [])"
      "failures_logged env s4 \<longrightarrow> failures_logged env s5"
    using enabled_block_completes [OF c, of "pd_mesh_post pd" command_mesh_post _ _ s4] by blast
  have res: "main_steps pd env t s = (None, s5)"
    using 1(1) 2(1) 3(1) 4(1) 5(1) by (simp add: main_steps_def next_step_def)
  have calls: "subprocess_calls s5 = subprocess_calls s @ configured_commands pd t"
    using 1(2) 2(2) 3(2) 4(2) 5(2) by (simp add: configured_commands_def)
  have "failures_logged env s \<longrightarrow> failures_logged env s5"
    using 1(3) 2(3) 3(3) 4(3) 5(3) by blast
  then show ?thesis using res calls by blast
qed

lemma mesh_differs:
  "command_mesh_post \<noteq> command_record t" "command_mesh_post \<noteq> command_export"
  "command_mesh_post \<noteq> command_pose_post"
  by (simp_all add: command_mesh_post_def command_record_def command_export_def
      command_pose_post_def func_mesh_post_def func_path_export_def func_path_pose_post_def)

lemma failures_logged_start: "failures_logged env start_state"
  by (simp add: failures_logged_def start_state_def)

text \<open>
  Claim C8. Whatever the step table, if every child process runs to an exit code (zero
  or not) and the in-process hyperspectral capture, where enabled, does not raise, then
  no exception leaves the orchestrator, the commands it has run are those of all the
  configured steps in order, and for every child that exited with a nonzero code the
  captured stderr has been printed.
\<close>

theorem failed_step_does_not_stop_orchestrator:
  assumes "\<forall>k command. \<exists>result. subprocess_run env k command = Completed result"
    and "pd_record pd \<and> pd_record_hsi pd \<longrightarrow> record_hsi_raises env = None"
  shows "\<exists>s'. main_steps pd env t start_state = (None, s')
           \<and> subprocess_calls s' = configured_commands pd t
           \<and> failures_logged env s'"
  using main_steps_complete [OF assms, of t start_state] failures_logged_start [of env]
  by (auto simp: start_state_def)

theorem failed_step_does_not_stop_orchestrator_witness:
  "(\<forall>k command. \<exists>result. subprocess_run failing_environment k command = Completed result
                              \<and> returncode result \<noteq> 0)
   \<and> (\<exists>s'. main_steps all_steps failing_environment ''1730750000.0'' start_state = (None, s')
         \<and> subprocess_calls s'
             = [command_record ''1730750000.0'', command_export, command_pose_post,
                command_mesh_post, command_mesh_post]
         \<and> failures_logged failing_environment s')"
  using failed_step_does_not_stop_orchestrator [of failing_environment all_steps "''1730750000.0''"]
  by (simp add: failing_environment_def all_steps_def configured_commands_def)

text \<open>
  Claim C10. With the mesh step enabled (and, as above, every child running to an exit
  code and the in-process capture not raising), the orchestrator ends with two calls of
  \<open>subprocess.run\<close> on the mesh command, one after the other, and no call of that
  command before them: the command is run exactly twice.
\<close>

theorem mesh_post_runs_twice:
  assumes "\<forall>k command. \<exists>result. subprocess_run env k command = Completed result"
    and "pd_record pd \<and> pd_record_hsi pd \<longrightarrow> record_hsi_raises env = None"
    and "pd_mesh_post pd"
  shows "\<exists>s' before. main_steps pd env t start_state = (None, s')
           \<and> subprocess_calls s' = before @ [command_mesh_post, command_mesh_post]
           \<and> command_mesh_post \<notin> set before
           \<and> count_list (subprocess_calls s') command_mesh_post = 2"
proof -
  define before where "before =
     (if pd_record pd \<and> pd_record_svo pd then [command_record t] else [])
     @ (if pd_export pd then [command_export] else [])
     @ (if pd_pose_post pd then [command_pose_post] else [])"
  obtain s' where r: "main_steps pd env t start_state = (None, s')"
      "subprocess_calls s' = subprocess_calls start_state @ configured_commands pd t"
    using main_steps_complete [OF assms(1, 2), of t start_state] by blast
  have c: "subprocess_calls s' = before @ [command_mesh_post, command_mesh_post]"
    using r(2) assms(3) by (simp add: configured_commands_def before_def start_state_def)
  have n: "command_mesh_post \<notin> set before"
    using mesh_differs(1) [of t] mesh_differs(2, 3) by (simp add: before_def)
  then have "count_list before command_mesh_post = 0" by (simp add: count_list_0_iff)
  then have "count_list (subprocess_calls s') command_mesh_post = 2"
    using c by simp
  then show ?thesis using r(1) c n by blast
qed

theorem mesh_post_runs_twice_witness:
  "pd_mesh_post all_steps
   \<and> (\<exists>s' before. main_steps all_steps failing_environment ''1730750000.0'' start_state = (None, s')
         \<and> subprocess_calls s' = before @ [command_mesh_post, command_mesh_post]
         \<and> command_mesh_post \<notin> set before
         \<and> count_list (subprocess_calls s') command_mesh_post = 2)"
  using mesh_post_runs_twice [of failing_environment all_steps "''1730750000.0''"]
  by (simp add: failing_environment_def all_steps_def)

section \<open>Properties of the pose post-processing\<close>

lemma concat_row_new_data:
  "df_columns df = pose_columns \<Longrightarrow>
   concat_row df (new_data to_float round3 p)
     = df\<lparr>df_rows := df_rows df @ [rounded_row to_float round3 p]\<rparr>"
  by (simp add: concat_row_def new_data_def pose_columns_def rounded_row_def)

lemma grabbed_step:
  "k < K \<Longrightarrow> grabbed g k K = (case g k of Some p \<Rightarrow> [p] | None \<Rightarrow> []) @ grabbed g (Suc k) K"
  by (simp add: grabbed_def upt_conv_Cons List.map_filter_simps split: option.splits)

lemma grabbed_empty [simp]: "grabbed g k k = []"
  by (simp add: grabbed_def List.map_filter_simps)

lemma pose_loop_rows:
  "pose_loop fuel to_float round3 g nb k i df = Some df' \<Longrightarrow> df_columns df = pose_columns \<Longrightarrow>
   \<exists>K\<ge>k. df_rows df' = df_rows df @ map (rounded_row to_float round3) (grabbed g k K)
        \<and> df_columns df' = pose_columns
        \<and> int i + int (length (grabbed g k K)) = max nb (int i)"
proof (induction fuel arbitrary: k i df)
  case 0
  then show ?case by simp
next
  case (Suc fuel)
  show ?case
  proof (cases "int i < nb")
    case False
    then have "df' = df" using Suc.prems(1) by simp
    then show ?thesis using False Suc.prems(2) by (intro exI [of _ k]) simp
  next
    case lt: True
    show ?thesis
    proof (cases "g k")
      case None
      then have "pose_loop fuel to_float round3 g nb (Suc k) i df = Some df'"
        using Suc.prems(1) lt by simp
      from Suc.IH [OF this Suc.prems(2)] obtain K where K: "Suc k \<le> K"
        "df_rows df' = df_rows df @ map (rounded_row to_float round3) (grabbed g (Suc k) K)"
        "df_columns df' = pose_columns"
        "int i + int (length (grabbed g (Suc k) K)) = max nb (int i)" by blast
      have "grabbed g k K = grabbed g (Suc k) K"
        using grabbed_step [of k K g] K(1) None by simp
      then show ?thesis using K by (intro exI [of _ K]) simp
    next
      case (Some p)
      define df1 where "df1 = df\<lparr>df_rows := df_rows df @ [rounded_row to_float round3 p]\<rparr>"
      have "pose_loop fuel to_float round3 g nb (Suc k) (Suc i) df1 = Some df'"
        using Suc.prems lt Some by (simp add: concat_row_new_data df1_def)
      moreover have "df_columns df1 = pose_columns" using Suc.prems(2) by (simp add: df1_def)
      ultimately obtain K where K: "Suc k \<le> K"
        "df_rows df' = df_rows df1 @ map (rounded_row to_float round3) (grabbed g (Suc k) K)"
        "df_columns df' = pose_columns"
        "int (Suc i) + int (length (grabbed g (Suc k) K)) = max nb (int (Suc i))"
        using Suc.IH [of "Suc k" "Suc i" df1] by blast
      have "grabbed g k K = p # grabbed g (Suc k) K"
        using grabbed_step [of k K g] K(1) Some by simp
      then show ?thesis using K lt by (intro exI [of _ K]) (simp add: df1_def)
    qed
  qed
qed

lemma pose_loop_ends:
  "nb \<le> int i + int (length (grabbed g k (k + m))) \<Longrightarrow> m < fuel \<Longrightarrow>
   \<exists>df'. pose_loop fuel to_float round3 g nb k i df = Some df'"
proof (induction m arbitrary: fuel k i df)
  case 0
  then obtain fuel' where "fuel = Suc fuel'" by (cases fuel) auto
  then show ?case using 0 by simp
next
  case (Suc m)
  then obtain fuel' where f: "fuel = Suc fuel'" "m < fuel'" by (cases fuel) auto
  show ?case
  proof (cases "int i < nb")
    case False
    then show ?thesis using f by simp
  next
    case lt: True
    have st: "grabbed g k (k + Suc m) = (case g k of Some p \<Rightarrow> [p] | None \<Rightarrow> []) @ grabbed g (Suc k) (Suc k + m)"
      using grabbed_step [of k "k + Suc m" g] by simp
    show ?thesis
    proof (cases "g k")
      case None
      then have "nb \<le> int i + int (length (grabbed g (Suc k) (Suc k + m)))"
        using Suc.prems(1) st by simp
      from Suc.IH [OF this f(2)] show ?thesis using f lt None by simp
    next
      case (Some p)
      then have "nb \<le> int (Suc i) + int (length (grabbed g (Suc k) (Suc k + m)))"
        using Suc.prems(1) st by simp
      from Suc.IH [OF this f(2)] show ?thesis using f lt Some by simp
    qed
  qed
qed


lemma enumerate_map_rows:
  "map (\<lambda>(i, row). IntCell (int i) # row) (enumerate n (map f ps))
     = map (\<lambda>(i, p). IntCell (int i) # f p) (enumerate n ps)"
  by (induction ps arbitrary: n) simp_all

lemma sample_run: "position_post_main 4 FloatOfInt Round3 sample_zed = Some (CsvWritten sample_csv)"
  by (simp add: position_post_main_def sample_zed_def sample_csv_def sample_pose_def
      empty_frame_def to_csv_def concat_row_def new_data_def pose_columns_def
      eval_nat_numeral)


lemma pose_loop_spins:
  "int i < nb \<Longrightarrow> \<forall>j\<ge>k. g j = None \<Longrightarrow> pose_loop fuel to_float round3 g nb k i df = None"
  by (induction fuel arbitrary: k) simp_all

text \<open>
  Claim C9, as the code has it. When the script writes the CSV, its header line is an
  empty field (the unnamed index column that \<open>to_csv\<close> adds by default) followed by
  \<open>Timestamp, Tx, Ty, Tz, Qx, Qy, Qz, Qw\<close>; it has as many data lines as the SVO file
  reports frames; and the lines are, in order, one per successful grab among the grabs
  made: the row number, the timestamp as a float, and the seven components each passed
  through \<open>round(x, 3)\<close>. The file is written once as many grabs have succeeded as the SVO
  file reports frames.
\<close>

theorem pose_csv_contents:
  "(position_post_main fuel to_float round3 z = Some (CsvWritten csv) \<longrightarrow>
      csv_header csv = [[], ''Timestamp'', ''Tx'', ''Ty'', ''Tz'', ''Qx'', ''Qy'', ''Qz'', ''Qw'']
      \<and> length (csv_lines csv) = nat (svo_number_of_frames z)
      \<and> (\<exists>K. csv_lines csv
               = map (\<lambda>(i, p). IntCell (int i) # rounded_row to_float round3 p)
                   (enumerate 0 (grabbed (grab z) 0 K))))
   \<and> (open_succeeds z \<and> tracking_succeeds z
        \<and> svo_number_of_frames z \<le> int (length (grabbed (grab z) 0 N))
      \<longrightarrow> (\<exists>csv'. position_post_main (Suc N) to_float round3 z = Some (CsvWritten csv')))"
proof (intro conjI impI)
  assume a: "position_post_main fuel to_float round3 z = Some (CsvWritten csv)"
  then obtain df where df: "pose_loop fuel to_float round3 (grab z) (svo_number_of_frames z) 0 0 empty_frame = Some df"
      and csv: "csv = to_csv df"
    by (auto simp: position_post_main_def split: if_splits option.splits)
  have "df_columns (empty_frame :: 'a data_frame) = pose_columns" by (simp add: empty_frame_def)
  from pose_loop_rows [OF df this] obtain K where K:
      "df_rows df = map (rounded_row to_float round3) (grabbed (grab z) 0 K)"
      "df_columns df = pose_columns"
      "int (length (grabbed (grab z) 0 K)) = max (svo_number_of_frames z) 0"
    by (auto simp: empty_frame_def)
  show "csv_header csv = [[], ''Timestamp'', ''Tx'', ''Ty'', ''Tz'', ''Qx'', ''Qy'', ''Qz'', ''Qw'']"
    using K(2) by (simp add: csv to_csv_def pose_columns_def)
  show "length (csv_lines csv) = nat (svo_number_of_frames z)"
    using K(1, 3) by (simp add: csv to_csv_def)
  show "\<exists>K. csv_lines csv = map (\<lambda>(i, p). IntCell (int i) # rounded_row to_float round3 p)
                   (enumerate 0 (grabbed (grab z) 0 K))"
    using K(1) by (auto simp: csv to_csv_def enumerate_map_rows)
next
  assume b: "open_succeeds z \<and> tracking_succeeds z
        \<and> svo_number_of_frames z \<le> int (length (grabbed (grab z) 0 N))"
  then have "svo_number_of_frames z \<le> int 0 + int (length (grabbed (grab z) 0 (0 + N)))" by simp
  from pose_loop_ends [OF this, of "Suc N" to_float round3 empty_frame]
  obtain df' where "pose_loop (Suc N) to_float round3 (grab z) (svo_number_of_frames z) 0 0 empty_frame = Some df'"
    by auto
  then show "\<exists>csv'. position_post_main (Suc N) to_float round3 z = Some (CsvWritten csv')"
    using b by (simp add: position_post_main_def)
qed

theorem pose_csv_contents_witness:
  "position_post_main 4 FloatOfInt Round3 sample_zed = Some (CsvWritten sample_csv)
   \<and> csv_header sample_csv = [[], ''Timestamp'', ''Tx'', ''Ty'', ''Tz'', ''Qx'', ''Qy'', ''Qz'', ''Qw'']
   \<and> length (csv_lines sample_csv) = nat (svo_number_of_frames sample_zed)
   \<and> (\<exists>K. csv_lines sample_csv
            = map (\<lambda>(i, p). IntCell (int i) # rounded_row FloatOfInt Round3 p)
                (enumerate 0 (grabbed (grab sample_zed) 0 K)))
   \<and> svo_number_of_frames sample_zed \<le> int (length (grabbed (grab sample_zed) 0 3))
   \<and> (\<exists>csv'. position_post_main (Suc 3) FloatOfInt Round3 sample_zed = Some (CsvWritten csv'))"
proof -
  have g: "open_succeeds sample_zed \<and> tracking_succeeds sample_zed
        \<and> svo_number_of_frames sample_zed \<le> int (length (grabbed (grab sample_zed) 0 3))"
    by (simp add: sample_zed_def grabbed_def List.map_filter_simps eval_nat_numeral upt_rec)
  show ?thesis
    using pose_csv_contents [of 4 FloatOfInt Round3 sample_zed sample_csv 3] sample_run g
    by simp
qed


text \<open>
  The claim as the specification words it (the columns are exactly the eight named
  ones) fails: the file written for the sample recording has nine fields per line, the
  first of them the index.
\<close>

theorem csv_columns_counterexample:
  "position_post_main 4 FloatOfInt Round3 sample_zed = Some (CsvWritten sample_csv)
   \<and> csv_header sample_csv
       = [[], ''Timestamp'', ''Tx'', ''Ty'', ''Tz'', ''Qx'', ''Qy'', ''Qz'', ''Qw'']
   \<and> csv_header sample_csv \<noteq> [''Timestamp'', ''Tx'', ''Ty'', ''Tz'', ''Qx'', ''Qy'', ''Qz'', ''Qw'']
   \<and> map length (csv_lines sample_csv) = [9, 9]"
  using sample_run by (simp add: sample_csv_def)

end
